theory Spec2Isabelle
  imports Complex_Main "HOL-Library.Signed_Division"
begin

section \<open>Numbers of the C source\<close>

text \<open>
  The layout manager of \<^verbatim>\<open>libxfdashboard/dynamic-table-layout.c\<close> computes with
  \<^verbatim>\<open>gfloat\<close>, \<^verbatim>\<open>double\<close> and \<^verbatim>\<open>gint\<close>. In this development

  \<^item> a finite floating-point value is an exact \<open>real\<close>: rounding and signed zeros are
    not modelled, and every float that enters a function (sizes, spacings, natural sizes
    of children) is finite;
  \<^item> the special values that a floating-point division by zero produces are kept: the
    type \<open>ieee\<close> adds the two infinities and NaN to the finite values, and the operations
    the source applies to such a quotient (\<^verbatim>\<open>ceil\<close>, the macro \<^verbatim>\<open>MIN\<close>, \<^verbatim>\<open>+1\<close>, the
    conversion to \<^verbatim>\<open>gint\<close>) follow IEEE 754 and the C standard on them;
  \<^item> \<^verbatim>\<open>gint\<close> is \<open>int\<close>: every integer of the source is bounded by the number of visible
    children plus one, which is assumed to be representable;
  \<^item> behaviour the C standard leaves undefined is a value of type \<open>error\<close>.

  The theorems of the claims that are stated for all inputs speak of counts, of the
  order, the number and the first entry of the coordinates and of sufficient conditions
  that rounding to \<^verbatim>\<open>gfloat\<close> preserves; other coordinate values are stated at concrete
  inputs only, where every value of the computation is a small integer.
\<close>

datatype ieee = Finite real | PosInf | NegInf | NaN

datatype error =
    UndefinedConversion   \<comment> \<open>an infinity or NaN converted to \<^verbatim>\<open>gint\<close>\<close>
  | DivisionByZero        \<comment> \<open>integer \<^verbatim>\<open>%\<close> or \<^verbatim>\<open>/\<close> with divisor 0\<close>
  | IndexOutOfRange       \<comment> \<open>\<^verbatim>\<open>g_array_index\<close> beyond the length of the array\<close>
  | NullArray             \<comment> \<open>\<^verbatim>\<open>g_array_index\<close> on a NULL array\<close>
  | AssertNotReached      \<comment> \<open>\<^verbatim>\<open>g_assert_not_reached()\<close>\<close>

text \<open>Division of two finite floats, \<^verbatim>\<open>a/b\<close>.\<close>

definition fdiv :: "real \<Rightarrow> real \<Rightarrow> ieee" where
  "fdiv a b =
     (if b \<noteq> 0 then Finite (a / b)
      else if 0 < a then PosInf
      else if a < 0 then NegInf
      else NaN)"

text \<open>The comparison \<^verbatim>\<open>a < b\<close>: false as soon as one side is NaN.\<close>

fun ieee_less :: "ieee \<Rightarrow> ieee \<Rightarrow> bool" where
  "ieee_less (Finite a) (Finite b) = (a < b)"
| "ieee_less (Finite a) PosInf = True"
| "ieee_less NegInf (Finite b) = True"
| "ieee_less NegInf PosInf = True"
| "ieee_less _ _ = False"

text \<open>\<^verbatim>\<open>ceil\<close> from \<^verbatim>\<open>math.h\<close>: infinities and NaN are returned as they are.\<close>

fun ieee_ceil :: "ieee \<Rightarrow> ieee" where
  "ieee_ceil (Finite a) = Finite (of_int \<lceil>a\<rceil>)"
| "ieee_ceil x = x"

text \<open>GLib's macro \<^verbatim>\<open>#define MIN(a, b)  (((a) < (b)) ? (a) : (b))\<close>.\<close>

definition MIN_ieee :: "ieee \<Rightarrow> ieee \<Rightarrow> ieee" where
  "MIN_ieee a b = (if ieee_less a b then a else b)"

fun ieee_plus_one :: "ieee \<Rightarrow> ieee" where
  "ieee_plus_one (Finite a) = Finite (a + 1)"
| "ieee_plus_one x = x"

text \<open>
  Assignment of a \<^verbatim>\<open>double\<close> to a \<^verbatim>\<open>gint\<close>: the fraction is discarded (truncation
  towards zero); the conversion of an infinity or of NaN is undefined.
\<close>

fun to_gint :: "ieee \<Rightarrow> int option" where
  "to_gint (Finite a) = Some (if 0 \<le> a then \<lfloor>a\<rfloor> else \<lceil>a\<rceil>)"
| "to_gint _ = None"

section \<open>Data model\<close>

text \<open>
  What the layout manager sees of a child actor: \<^verbatim>\<open>clutter_actor_is_visible\<close> and the
  natural width and height that \<^verbatim>\<open>clutter_actor_get_preferred_size\<close> reports.
\<close>

record child =
  is_visible :: bool
  natural_width :: real
  natural_height :: real

text \<open>
  \<^verbatim>\<open>ClutterRequestMode\<close> is declared by Clutter, not by this repository. The source names
  two of its values; \<open>OTHER_REQUEST_MODE\<close> stands for any other value of the enumeration.
\<close>

datatype request_mode = HEIGHT_FOR_WIDTH | WIDTH_FOR_HEIGHT | OTHER_REQUEST_MODE

record container =
  actor_request_mode :: request_mode
  actor_children :: "child list"

datatype property =
  PROP_ROW_SPACING | PROP_COLUMN_SPACING | PROP_NUMBER_CHILDREN | PROP_ROWS | PROP_COLUMNS

text \<open>
  What an observer of the object sees: \<open>Notify p\<close> for \<^verbatim>\<open>g_object_notify_by_pspec\<close> and
  \<open>LayoutChanged\<close> for \<^verbatim>\<open>clutter_layout_manager_layout_changed\<close>.
\<close>

datatype event = Notify property | LayoutChanged

text \<open>
  \<^verbatim>\<open>struct _XfdashboardDynamicTableLayoutPrivate\<close>, together with the events the object
  has emitted so far (oldest first). A \<^verbatim>\<open>GArray*\<close> is \<open>None\<close> when it is NULL.
\<close>

record layout =
  rowSpacing :: real
  columnSpacing :: real
  rows :: int
  columns :: int
  numberChildren :: int
  columnCoords :: "real list option"
  rowCoords :: "real list option"
  emitted :: "event list"

text \<open>\<^verbatim>\<open>xfdashboard_dynamic_table_layout_init\<close>\<close>

definition layout_init :: layout where
  "layout_init =
     \<lparr>rowSpacing = 0, columnSpacing = 0, rows = 0, columns = 0, numberChildren = 0,
      columnCoords = None, rowCoords = None, emitted = []\<rparr>"

definition notify :: "property \<Rightarrow> layout \<Rightarrow> layout" where
  "notify p self = self\<lparr>emitted := emitted self @ [Notify p]\<rparr>"

definition layout_changed :: "layout \<Rightarrow> layout" where
  "layout_changed self = self\<lparr>emitted := emitted self @ [LayoutChanged]\<rparr>"

text \<open>\<^verbatim>\<open>g_array_index(array, gfloat, index)\<close>\<close>

definition g_array_index :: "real list option \<Rightarrow> int \<Rightarrow> error + real" where
  "g_array_index array i =
     (case array of
        None \<Rightarrow> Inl NullArray
      | Some xs \<Rightarrow>
          if 0 \<le> i \<and> i < int (length xs) then Inr (xs ! nat i) else Inl IndexOutOfRange)"

section \<open>Updating the layout data\<close>

text \<open>
  Step one of \<^verbatim>\<open>_xfdashboard_dynamic_table_layout_update_layout_data\<close>: the loop over the
  children that counts the visible ones and finds their largest natural width and
  height. The accumulator is \<open>(numberChildren, largestWidth, largestHeight)\<close>.
\<close>

fun step_one :: "child list \<Rightarrow> int \<times> real \<times> real \<Rightarrow> int \<times> real \<times> real" where
  "step_one [] acc = acc"
| "step_one (ch # chs) (n, largestWidth, largestHeight) =
     (if is_visible ch
      then step_one chs
             (n + 1, max largestWidth (natural_width ch), max largestHeight (natural_height ch))
      else step_one chs (n, largestWidth, largestHeight))"

text \<open>Step two: the request mode, overridden when a size is not set.\<close>

definition effective_request_mode :: "request_mode \<Rightarrow> real \<Rightarrow> real \<Rightarrow> request_mode" where
  "effective_request_mode m inWidth inHeight =
     (if inWidth < 0 then WIDTH_FOR_HEIGHT
      else if inHeight < 0 then HEIGHT_FOR_WIDTH
      else m)"

text \<open>
  The loop
  \<^verbatim>\<open>do { columns--; childWidth=(columns*largestWidth)+((columns-1)*spacing); }
  while(columns>1 && childWidth>inWidth);\<close>
  started with \<open>c\<close> in \<^verbatim>\<open>columns\<close>; its result is the final value of \<^verbatim>\<open>columns\<close>. The
  loop for the rows is the same text with rows, heights and the row spacing.
\<close>

function shrink :: "int \<Rightarrow> real \<Rightarrow> real \<Rightarrow> real \<Rightarrow> int" where
  "shrink c largest spacing avail =
     (if 1 < c - 1 \<and> avail < of_int (c - 1) * largest + of_int (c - 1 - 1) * spacing
      then shrink (c - 1) largest spacing avail
      else c - 1)"
  by pat_completeness auto
termination
  by (relation "measure (\<lambda>(c, largest, spacing, avail). nat c)") auto

declare shrink.simps [simp del]

text \<open>
  Step three, one constrained axis. For the columns the source reads
  \<^verbatim>\<open>columns=MIN(ceil(inWidth/largestWidth), priv->numberChildren)+1;\<close>, then the loop
  above, then
  \<^verbatim>\<open>largestWidth=floor(inWidth-((columns-1)*priv->columnSpacing))/columns;\<close> and
  \<^verbatim>\<open>rows=ceil((double)priv->numberChildren / (double)columns);\<close>.
  The branch for the rows is the same text with the two axes exchanged, so both are
  instances of \<open>fit_axis n largest spacing avail\<close>, whose result is (the count on the
  constrained axis, the count on the other axis, the new cell size on the constrained
  axis). A cell size that is not finite arises only from the division by a count of 0,
  where the conversion to \<^verbatim>\<open>gint\<close> that follows it is undefined.
\<close>

definition fit_axis :: "int \<Rightarrow> real \<Rightarrow> real \<Rightarrow> real \<Rightarrow> error + (int \<times> int \<times> real)" where
  "fit_axis n largest spacing avail =
     (case to_gint (ieee_plus_one
              (MIN_ieee (ieee_ceil (fdiv avail largest)) (Finite (of_int n)))) of
        None \<Rightarrow> Inl UndefinedConversion
      | Some k0 \<Rightarrow>
          (let k = shrink k0 largest spacing avail in
           case (fdiv (of_int \<lfloor>avail - of_int (k - 1) * spacing\<rfloor>) (of_int k),
                 to_gint (ieee_ceil (fdiv (of_int n) (of_int k)))) of
             (Finite cell, Some m) \<Rightarrow> Inr (k, m, cell)
           | _ \<Rightarrow> Inl UndefinedConversion))"

text \<open>
  Step three: the number of rows and columns. The result is
  \<open>(rows, columns, largestWidth, largestHeight)\<close> with the values these four local
  variables have after the step.
\<close>

definition determine_rows_columns ::
  "int \<Rightarrow> real \<Rightarrow> real \<Rightarrow> real \<Rightarrow> real \<Rightarrow> request_mode \<Rightarrow> real \<Rightarrow> real
     \<Rightarrow> error + (int \<times> int \<times> real \<times> real)" where
  "determine_rows_columns n largestWidth largestHeight colSpacing rowSpacing' requestMode
       inWidth inHeight =
     (if inWidth < 0 \<and> inHeight < 0 then Inr (1, n, largestWidth, largestHeight)
      else if requestMode = HEIGHT_FOR_WIDTH then
        (case fit_axis n largestWidth colSpacing inWidth of
           Inl e \<Rightarrow> Inl e
         | Inr (ncols, nrows, w) \<Rightarrow> Inr (nrows, ncols, w, largestHeight))
      else if requestMode = WIDTH_FOR_HEIGHT then
        (case fit_axis n largestHeight rowSpacing' inHeight of
           Inl e \<Rightarrow> Inl e
         | Inr (nrows, ncols, h) \<Rightarrow> Inr (nrows, ncols, largestWidth, h))
      else Inl AssertNotReached)"

text \<open>
  Step four: the loop that appends \<open>x\<close> to \<^verbatim>\<open>columnCoords\<close> for every visible child and
  advances it by \<open>step = largestWidth + columnSpacing\<close>, and the append after the loop.
\<close>

fun column_coords :: "child list \<Rightarrow> real \<Rightarrow> real \<Rightarrow> real list" where
  "column_coords [] x step = [x]"
| "column_coords (ch # chs) x step =
     (if is_visible ch then x # column_coords chs (x + step) step
      else column_coords chs x step)"

text \<open>
  Step five: the loop over the children that appends a row coordinate whenever
  \<^verbatim>\<open>(i % priv->columns)==0\<close>, and the append after the loop. The arguments after the
  children are \<^verbatim>\<open>priv->columns\<close>, \<^verbatim>\<open>priv->rowSpacing\<close> and the current values of \<^verbatim>\<open>i\<close>,
  \<^verbatim>\<open>y\<close> and \<^verbatim>\<open>largestHeight\<close>.
\<close>

fun row_coords :: "child list \<Rightarrow> int \<Rightarrow> real \<Rightarrow> int \<Rightarrow> real \<Rightarrow> real \<Rightarrow> error + real list" where
  "row_coords [] ncols spacing i y largestHeight = Inr [y + largestHeight]"
| "row_coords (ch # chs) ncols spacing i y largestHeight =
     (if is_visible ch then
        (if ncols = 0 then Inl DivisionByZero
         else if i smod ncols = 0 then
           (case row_coords chs ncols spacing (i + 1) (y + (largestHeight + spacing))
                   (max 0 (natural_height ch)) of
              Inl e \<Rightarrow> Inl e
            | Inr ys \<Rightarrow> Inr ((y + (largestHeight + spacing)) # ys))
         else row_coords chs ncols spacing (i + 1) y (max largestHeight (natural_height ch)))
      else row_coords chs ncols spacing i y largestHeight)"

text \<open>\<^verbatim>\<open>_xfdashboard_dynamic_table_layout_update_layout_data\<close>\<close>

definition update_layout_data :: "layout \<Rightarrow> container \<Rightarrow> real \<Rightarrow> real \<Rightarrow> error + layout" where
  "update_layout_data self inContainer inWidth inHeight =
     (case step_one (actor_children inContainer) (0, 0, 0) of
        (n, largestWidth, largestHeight) \<Rightarrow>
          (let s1 = (if n \<noteq> numberChildren self
                     then notify PROP_NUMBER_CHILDREN (self\<lparr>numberChildren := n\<rparr>) else self);
               requestMode =
                 effective_request_mode (actor_request_mode inContainer) inWidth inHeight
           in (case determine_rows_columns (numberChildren s1) largestWidth largestHeight
                     (columnSpacing s1) (rowSpacing s1) requestMode inWidth inHeight of
                 Inl e \<Rightarrow> Inl e
               | Inr (nrows, ncols, cellWidth, cellHeight) \<Rightarrow>
                  (let s2 = (if nrows \<noteq> rows s1
                             then notify PROP_ROWS (s1\<lparr>rows := nrows\<rparr>) else s1);
                       s3 = (if ncols \<noteq> columns s2
                             then notify PROP_COLUMNS (s2\<lparr>columns := ncols\<rparr>) else s2);
                       s4 = s3\<lparr>columnCoords :=
                                 Some (column_coords (actor_children inContainer) 0
                                         (cellWidth + columnSpacing s3))\<rparr>
                   in (case row_coords (actor_children inContainer) (columns s4)
                              (rowSpacing s4) 0 (- rowSpacing s4) 0 of
                         Inl e \<Rightarrow> Inl e
                       | Inr ys \<Rightarrow> Inr (s4\<lparr>rowCoords := Some ys\<rparr>))))))"

section \<open>The layout manager's entry points\<close>

text \<open>
  \<^verbatim>\<open>_xfdashboard_dynamic_table_layout_get_preferred_width\<close>: the result is the updated
  object with \<open>(minimum width, natural width)\<close>.
\<close>

definition get_preferred_width ::
  "layout \<Rightarrow> container \<Rightarrow> real \<Rightarrow> error + (layout \<times> real \<times> real)" where
  "get_preferred_width self inContainer inForHeight =
     (case update_layout_data self inContainer (- 1) inForHeight of
        Inl e \<Rightarrow> Inl e
      | Inr priv \<Rightarrow>
          if 0 < columns priv then
            (case g_array_index (columnCoords priv) (columns priv) of
               Inl e \<Rightarrow> Inl e
             | Inr maxNaturalWidth \<Rightarrow>
                 Inr (priv, of_int (columns priv - 1) * columnSpacing priv, maxNaturalWidth))
          else Inr (priv, 0, 0))"

text \<open>\<^verbatim>\<open>_xfdashboard_dynamic_table_layout_get_preferred_height\<close>\<close>

definition get_preferred_height ::
  "layout \<Rightarrow> container \<Rightarrow> real \<Rightarrow> error + (layout \<times> real \<times> real)" where
  "get_preferred_height self inContainer inForWidth =
     (case update_layout_data self inContainer inForWidth (- 1) of
        Inl e \<Rightarrow> Inl e
      | Inr priv \<Rightarrow>
          if 0 < rows priv then
            (case g_array_index (rowCoords priv) (rows priv) of
               Inl e \<Rightarrow> Inl e
             | Inr maxNaturalHeight \<Rightarrow>
                 Inr (priv, of_int (rows priv - 1) * rowSpacing priv, maxNaturalHeight))
          else Inr (priv, 0, 0))"

text \<open>\<^verbatim>\<open>ClutterActorBox\<close> with \<^verbatim>\<open>clutter_actor_box_get_width\<close> and \<^verbatim>\<open>_get_height\<close>.\<close>

record actor_box =
  x1 :: real
  y1 :: real
  x2 :: real
  y2 :: real

definition box_get_width :: "actor_box \<Rightarrow> real" where
  "box_get_width b = x2 b - x1 b"

definition box_get_height :: "actor_box \<Rightarrow> real" where
  "box_get_height b = y2 b - y1 b"

text \<open>
  The body of the loop of \<^verbatim>\<open>_xfdashboard_dynamic_table_layout_allocate\<close> for the visible
  child with running index \<open>i\<close>: the box handed to \<^verbatim>\<open>clutter_actor_allocate\<close>.
\<close>

definition child_allocation :: "layout \<Rightarrow> int \<Rightarrow> error + actor_box" where
  "child_allocation priv i =
     (if columns priv = 0 then Inl DivisionByZero
      else
        let col = i smod columns priv; row = i sdiv columns priv in
        case g_array_index (columnCoords priv) col of
          Inl e \<Rightarrow> Inl e
        | Inr cx1 \<Rightarrow>
       (case g_array_index (columnCoords priv) (col + 1) of
          Inl e \<Rightarrow> Inl e
        | Inr cx2 \<Rightarrow>
       (case g_array_index (rowCoords priv) row of
          Inl e \<Rightarrow> Inl e
        | Inr cy1 \<Rightarrow>
       (case g_array_index (rowCoords priv) (row + 1) of
          Inl e \<Rightarrow> Inl e
        | Inr cy2 \<Rightarrow>
            Inr \<lparr>x1 = cx1, y1 = cy1,
                 x2 = cx2 - columnSpacing priv, y2 = cy2 - rowSpacing priv\<rparr>))))"

text \<open>
  The loop of allocate over the children: \<open>k\<close> is the position of the next child in the
  container and \<open>i\<close> the running index of visible children. The result lists the calls
  of \<^verbatim>\<open>clutter_actor_allocate\<close> in order, as (position of the child, box).
\<close>

fun allocate_children ::
  "layout \<Rightarrow> child list \<Rightarrow> nat \<Rightarrow> int \<Rightarrow> error + (nat \<times> actor_box) list" where
  "allocate_children priv [] k i = Inr []"
| "allocate_children priv (ch # chs) k i =
     (if is_visible ch then
        (case child_allocation priv i of
           Inl e \<Rightarrow> Inl e
         | Inr b \<Rightarrow>
             (case allocate_children priv chs (Suc k) (i + 1) of
                Inl e \<Rightarrow> Inl e
              | Inr bs \<Rightarrow> Inr ((k, b) # bs)))
      else allocate_children priv chs (Suc k) i)"

text \<open>\<^verbatim>\<open>_xfdashboard_dynamic_table_layout_allocate\<close>\<close>

definition allocate ::
  "layout \<Rightarrow> container \<Rightarrow> actor_box \<Rightarrow> error + (layout \<times> (nat \<times> actor_box) list)" where
  "allocate self inContainer inAllocation =
     (case update_layout_data self inContainer
             (box_get_width inAllocation) (box_get_height inAllocation) of
        Inl e \<Rightarrow> Inl e
      | Inr priv \<Rightarrow>
          (case allocate_children priv (actor_children inContainer) 0 0 of
             Inl e \<Rightarrow> Inl e
           | Inr bs \<Rightarrow> Inr (priv, bs)))"

section \<open>Public API: spacing\<close>

text \<open>
  The setters return without any effect on the object when
  \<^verbatim>\<open>g_return_if_fail(inSpacing>=0.0f)\<close> fails.
\<close>

definition set_spacing :: "layout \<Rightarrow> real \<Rightarrow> layout" where
  "set_spacing self inSpacing =
     (if \<not> 0 \<le> inSpacing then self
      else if rowSpacing self \<noteq> inSpacing \<or> columnSpacing self \<noteq> inSpacing then
        layout_changed
          (notify PROP_COLUMN_SPACING
             ((notify PROP_ROW_SPACING (self\<lparr>rowSpacing := inSpacing\<rparr>))
                \<lparr>columnSpacing := inSpacing\<rparr>))
      else self)"

definition get_row_spacing :: "layout \<Rightarrow> real" where
  "get_row_spacing self = rowSpacing self"

definition set_row_spacing :: "layout \<Rightarrow> real \<Rightarrow> layout" where
  "set_row_spacing self inSpacing =
     (if \<not> 0 \<le> inSpacing then self
      else if rowSpacing self \<noteq> inSpacing then
        layout_changed (notify PROP_ROW_SPACING (self\<lparr>rowSpacing := inSpacing\<rparr>))
      else self)"

definition get_column_spacing :: "layout \<Rightarrow> real" where
  "get_column_spacing self = columnSpacing self"

definition set_column_spacing :: "layout \<Rightarrow> real \<Rightarrow> layout" where
  "set_column_spacing self inSpacing =
     (if \<not> 0 \<le> inSpacing then self
      else if columnSpacing self \<noteq> inSpacing then
        layout_changed (notify PROP_COLUMN_SPACING (self\<lparr>columnSpacing := inSpacing\<rparr>))
      else self)"

section \<open>Observations used in the statements\<close>

text \<open>
  The three results of step one for a list of children: the number of visible children
  and their largest natural width and height.
\<close>

definition number_visible :: "child list \<Rightarrow> int" where
  "number_visible chs = fst (step_one chs (0, 0, 0))"

definition largest_width :: "child list \<Rightarrow> real" where
  "largest_width chs = fst (snd (step_one chs (0, 0, 0)))"

definition largest_height :: "child list \<Rightarrow> real" where
  "largest_height chs = snd (snd (step_one chs (0, 0, 0)))"

section \<open>Example data\<close>

text \<open>
  A visible child of natural size 100 x 50, and a container with five of them (its own
  request mode is height-for-width, Clutter's default).
\<close>

abbreviation child_100x50 :: child where
  "child_100x50 \<equiv> \<lparr>is_visible = True, natural_width = 100, natural_height = 50\<rparr>"

abbreviation five_children :: container where
  "five_children \<equiv>
     \<lparr>actor_request_mode = HEIGHT_FOR_WIDTH, actor_children = replicate 5 child_100x50\<rparr>"

text \<open>
  The states after an update of the five children in a width of 250 and in a height of
  200, a container with one such child and its states after the preferred width is asked
  for with a column spacing of 10 and the preferred height with a row spacing of 10,
  three visible children of natural width 0 and their state after an update in a width
  of 5 with a column spacing of 10, and a container without children.
\<close>

abbreviation five_children_width_250 :: layout where
  "five_children_width_250 \<equiv>
     \<lparr>rowSpacing = 0, columnSpacing = 0, rows = 3, columns = 2, numberChildren = 5,
      columnCoords = Some [0, 125, 250, 375, 500, 625], rowCoords = Some [0, 50, 100, 150],
      emitted = [Notify PROP_NUMBER_CHILDREN, Notify PROP_ROWS, Notify PROP_COLUMNS]\<rparr>"

abbreviation five_children_height_200 :: layout where
  "five_children_height_200 \<equiv>
     \<lparr>rowSpacing = 0, columnSpacing = 0, rows = 4, columns = 2, numberChildren = 5,
      columnCoords = Some [0, 100, 200, 300, 400, 500], rowCoords = Some [0, 50, 100, 150],
      emitted = [Notify PROP_NUMBER_CHILDREN, Notify PROP_ROWS, Notify PROP_COLUMNS]\<rparr>"

abbreviation one_child :: container where
  "one_child \<equiv> \<lparr>actor_request_mode = HEIGHT_FOR_WIDTH, actor_children = [child_100x50]\<rparr>"

abbreviation one_child_spacing_10 :: layout where
  "one_child_spacing_10 \<equiv>
     \<lparr>rowSpacing = 0, columnSpacing = 10, rows = 1, columns = 1, numberChildren = 1,
      columnCoords = Some [0, 110], rowCoords = Some [0, 50],
      emitted = [Notify PROP_NUMBER_CHILDREN, Notify PROP_ROWS, Notify PROP_COLUMNS]\<rparr>"

abbreviation one_child_row_spacing_10 :: layout where
  "one_child_row_spacing_10 \<equiv>
     \<lparr>rowSpacing = 10, columnSpacing = 0, rows = 1, columns = 1, numberChildren = 1,
      columnCoords = Some [0, 100], rowCoords = Some [0, 50],
      emitted = [Notify PROP_NUMBER_CHILDREN, Notify PROP_ROWS, Notify PROP_COLUMNS]\<rparr>"

abbreviation three_flat_children :: container where
  "three_flat_children \<equiv>
     \<lparr>actor_request_mode = HEIGHT_FOR_WIDTH,
      actor_children = replicate 3 \<lparr>is_visible = True, natural_width = 0, natural_height = 50\<rparr>\<rparr>"

abbreviation three_flat_children_width_5 :: layout where
  "three_flat_children_width_5 \<equiv>
     \<lparr>rowSpacing = 0, columnSpacing = 10, rows = 3, columns = 1, numberChildren = 3,
      columnCoords = Some [0, 15, 30, 45], rowCoords = Some [0, 50, 100, 150],
      emitted = [Notify PROP_NUMBER_CHILDREN, Notify PROP_ROWS, Notify PROP_COLUMNS]\<rparr>"

abbreviation no_children :: container where
  "no_children \<equiv> \<lparr>actor_request_mode = HEIGHT_FOR_WIDTH, actor_children = []\<rparr>"

section \<open>Step one and the shrinking loop\<close>

lemma step_one_count:
  "fst (step_one chs (n, a, b)) = n + int (length (filter is_visible chs))"
  by (induction chs arbitrary: n a b) auto

lemma step_one_width_ge: "a \<le> fst (snd (step_one chs (n, a, b)))"
proof (induction chs arbitrary: n a b)
  case Nil
  show ?case by simp
next
  case (Cons ch chs)
  have "a \<le> max a (natural_width ch)" by simp
  also have "\<dots> \<le> fst (snd (step_one chs (n + 1, max a (natural_width ch), max b (natural_height ch))))"
    by (rule Cons.IH)
  finally show ?case using Cons.IH [of a n b] by simp
qed

lemma step_one_height_ge: "b \<le> snd (snd (step_one chs (n, a, b)))"
proof (induction chs arbitrary: n a b)
  case Nil
  show ?case by simp
next
  case (Cons ch chs)
  have "b \<le> max b (natural_height ch)" by simp
  also have "\<dots> \<le> snd (snd (step_one chs (n + 1, max a (natural_width ch), max b (natural_height ch))))"
    by (rule Cons.IH)
  finally show ?case using Cons.IH [of b n a] by simp
qed

lemma shrink_le: "shrink c l s a \<le> c - 1"
proof (induction c l s a rule: shrink.induct)
  case (1 c l s a)
  show ?case
    using "1.IH" by (subst shrink.simps) auto
qed

lemma shrink_ge: "min (c - 1) 1 \<le> shrink c l s a"
proof (induction c l s a rule: shrink.induct)
  case (1 c l s a)
  show ?case
    using "1.IH" by (subst shrink.simps) auto
qed

lemma shrink_fits:
  "shrink c l s a \<le> 1 \<or>
   of_int (shrink c l s a) * l + of_int (shrink c l s a - 1) * s \<le> a"
proof (induction c l s a rule: shrink.induct)
  case (1 c l s a)
  show ?case
  proof (cases "1 < c - 1 \<and> a < of_int (c - 1) * l + of_int (c - 1 - 1) * s")
    case True
    then have "shrink c l s a = shrink (c - 1) l s a"
      by (subst shrink.simps) simp
    with "1.IH" True show ?thesis by simp
  next
    case False
    then have "shrink c l s a = c - 1"
      by (subst shrink.simps) auto
    with False show ?thesis by auto
  qed
qed

lemma shrink_stop:
  "\<not> (1 < c - 1 \<and> a < of_int (c - 1) * l + of_int (c - 1 - 1) * s) \<Longrightarrow> shrink c l s a = c - 1"
  by (subst shrink.simps) auto

lemma candidate:
  assumes "0 \<le> avail" "0 \<le> largest" "0 \<le> n"
  shows "\<exists>k0. to_gint (ieee_plus_one (MIN_ieee (ieee_ceil (fdiv avail largest))
                  (Finite (of_int n)))) = Some k0
            \<and> 1 \<le> k0 \<and> k0 \<le> n + 1 \<and> (0 < avail \<and> 0 < n \<longrightarrow> 2 \<le> k0)
            \<and> (largest = 0 \<longrightarrow> k0 = n + 1)"
proof (cases "largest = 0")
  case True
  with assms show ?thesis
    by (auto simp: fdiv_def MIN_ieee_def)
next
  case False
  with assms have pos: "0 < largest" by simp
  have "0 \<le> avail / largest"
    using assms pos by simp
  then have q: "0 \<le> \<lceil>avail / largest\<rceil>"
    by (simp add: zero_le_ceiling)
  have q1: "0 < avail \<Longrightarrow> 1 \<le> \<lceil>avail / largest\<rceil>"
    using pos by (simp add: one_le_ceiling)
  from False assms q q1 show ?thesis
    by (auto simp: fdiv_def MIN_ieee_def)
qed

section \<open>One constrained axis\<close>

lemma to_gint_of_int [simp]: "to_gint (Finite (of_int k)) = Some k"
  by simp

lemma ceil_div_bounds:
  fixes n k :: int
  assumes "0 < k"
  shows "n \<le> \<lceil>of_int n / (of_int k :: real)\<rceil> * k"
    and "(\<lceil>of_int n / (of_int k :: real)\<rceil> - 1) * k < n"
proof -
  let ?m = "\<lceil>of_int n / (of_int k :: real)\<rceil>"
  have kpos: "0 < (of_int k :: real)" using assms by simp
  have "of_int n / (of_int k :: real) \<le> of_int ?m" by (rule le_of_int_ceiling)
  then have "of_int n \<le> of_int ?m * (of_int k :: real)"
    by (simp only: pos_divide_le_eq [OF kpos])
  then have "(of_int n :: real) \<le> of_int (?m * k)" by simp
  then show "n \<le> ?m * k" by (simp only: of_int_le_iff)
  have "of_int ?m - 1 < of_int n / (of_int k :: real)" by (rule ceiling_correct [THEN conjunct1])
  then have "(of_int ?m - 1) * (of_int k :: real) < of_int n"
    by (simp only: pos_less_divide_eq [OF kpos])
  then have "(of_int ((?m - 1) * k) :: real) < of_int n" by simp
  then show "(?m - 1) * k < n" by (simp only: of_int_less_iff)
qed

lemma fit_axis_Inr:
  assumes fit: "fit_axis n largest spacing avail = Inr (k, m, cell)"
    and "0 \<le> avail" "0 \<le> largest" "0 \<le> n"
  shows "1 \<le> k \<and> k \<le> n \<and> m = \<lceil>of_int n / (of_int k :: real)\<rceil>
       \<and> cell = of_int \<lfloor>avail - of_int (k - 1) * spacing\<rfloor> / of_int k
       \<and> (k = 1 \<or> of_int k * largest + of_int (k - 1) * spacing \<le> avail)
       \<and> (largest = 0 \<longrightarrow> k = shrink (n + 1) 0 spacing avail)"
proof -
  from candidate [OF assms(2-4)] obtain k0 where
    k0: "to_gint (ieee_plus_one (MIN_ieee (ieee_ceil (fdiv avail largest))
                  (Finite (of_int n)))) = Some k0"
    and k0_ge: "1 \<le> k0" and k0_le: "k0 \<le> n + 1" and k0_zero: "largest = 0 \<longrightarrow> k0 = n + 1"
    by blast
  let ?k = "shrink k0 largest spacing avail"
  from fit k0 have res:
    "(case (fdiv (of_int \<lfloor>avail - of_int (?k - 1) * spacing\<rfloor>) (of_int ?k),
            to_gint (ieee_ceil (fdiv (of_int n) (of_int ?k)))) of
        (Finite cell, Some m) \<Rightarrow> Inr (?k, m, cell)
      | _ \<Rightarrow> Inl UndefinedConversion) = Inr (k, m, cell)"
    by (simp add: fit_axis_def Let_def)
  have nz: "?k \<noteq> 0"
  proof
    assume "?k = 0"
    with res show False by (simp add: fdiv_def split: if_splits)
  qed
  from res nz have eqs: "k = ?k" "m = \<lceil>of_int n / (of_int ?k :: real)\<rceil>"
    "cell = of_int \<lfloor>avail - of_int (?k - 1) * spacing\<rfloor> / of_int ?k"
    by (auto simp: fdiv_def split: if_splits)
  have "0 \<le> ?k" using shrink_ge [of k0 largest spacing avail] k0_ge by simp
  with nz have k1: "1 \<le> ?k" by simp
  have kn: "?k \<le> n" using shrink_le [of k0 largest spacing avail] k0_le by simp
  have fits: "?k = 1 \<or> of_int ?k * largest + of_int (?k - 1) * spacing \<le> avail"
    using shrink_fits [of k0 largest spacing avail] k1 by auto
  have z: "largest = 0 \<longrightarrow> ?k = shrink (n + 1) 0 spacing avail"
    using k0_zero by simp
  from eqs k1 kn fits z show ?thesis by simp
qed

lemma fit_axis_total:
  assumes "0 < avail" "0 \<le> largest" "0 < n"
  shows "\<exists>k m cell. fit_axis n largest spacing avail = Inr (k, m, cell)"
proof -
  from candidate [of avail largest n] assms obtain k0 where
    k0: "to_gint (ieee_plus_one (MIN_ieee (ieee_ceil (fdiv avail largest))
                  (Finite (of_int n)))) = Some k0"
    and k0_ge: "2 \<le> k0"
    by auto
  have "1 \<le> shrink k0 largest spacing avail"
    using shrink_ge [of k0 largest spacing avail] k0_ge by simp
  then have nz: "shrink k0 largest spacing avail \<noteq> 0" by simp
  show ?thesis
    using k0 nz by (simp add: fit_axis_def fdiv_def Let_def)
qed

section \<open>The result of an update and the two coordinate arrays\<close>

lemma number_visible_eq: "number_visible chs = int (length (filter is_visible chs))"
  by (simp add: number_visible_def step_one_count)

lemma largest_width_ge: "0 \<le> largest_width chs"
  unfolding largest_width_def by (rule step_one_width_ge)

lemma largest_height_ge: "0 \<le> largest_height chs"
  unfolding largest_height_def by (rule step_one_height_ge)

lemma step_one_split:
  "step_one chs (0, 0, 0) = (number_visible chs, largest_width chs, largest_height chs)"
  by (simp add: number_visible_def largest_width_def largest_height_def)

lemma update_layout_data_Inr:
  assumes "update_layout_data self cont w h = Inr priv"
  shows "\<exists>nrows ncols cw chh ys.
     determine_rows_columns (number_visible (actor_children cont))
        (largest_width (actor_children cont)) (largest_height (actor_children cont))
        (columnSpacing self) (rowSpacing self)
        (effective_request_mode (actor_request_mode cont) w h) w h = Inr (nrows, ncols, cw, chh)
     \<and> row_coords (actor_children cont) ncols (rowSpacing self) 0 (- rowSpacing self) 0 = Inr ys
     \<and> rows priv = nrows \<and> columns priv = ncols
     \<and> numberChildren priv = number_visible (actor_children cont)
     \<and> columnCoords priv = Some (column_coords (actor_children cont) 0 (cw + columnSpacing self))
     \<and> rowCoords priv = Some ys
     \<and> rowSpacing priv = rowSpacing self \<and> columnSpacing priv = columnSpacing self"
  using assms
  by (auto simp: update_layout_data_def step_one_split Let_def notify_def
      split: sum.splits if_splits)

lemma update_layout_data_total:
  assumes "determine_rows_columns (number_visible (actor_children cont))
        (largest_width (actor_children cont)) (largest_height (actor_children cont))
        (columnSpacing self) (rowSpacing self)
        (effective_request_mode (actor_request_mode cont) w h) w h = Inr (nrows, ncols, cw, chh)"
    and "row_coords (actor_children cont) ncols (rowSpacing self) 0 (- rowSpacing self) 0 = Inr ys"
  shows "\<exists>priv. update_layout_data self cont w h = Inr priv"
  using assms
  by (auto simp: update_layout_data_def step_one_split Let_def notify_def
      split: sum.splits if_splits)

lemma row_coords_total:
  assumes "ncols \<noteq> 0 \<or> filter is_visible chs = []"
  shows "\<exists>ys. row_coords chs ncols sp i y lh = Inr ys"
  using assms
proof (induction chs arbitrary: i y lh)
  case Nil
  show ?case by simp
next
  case (Cons ch chs)
  show ?case
  proof (cases "is_visible ch")
    case False
    with Cons show ?thesis by simp
  next
    case True
    with Cons.prems have nz: "ncols \<noteq> 0" by simp
    from Cons.IH [of "i + 1" "y + (lh + sp)" "max 0 (natural_height ch)"] nz
    obtain ys1 where ys1: "row_coords chs ncols sp (i + 1) (y + (lh + sp))
        (max 0 (natural_height ch)) = Inr ys1" by blast
    from Cons.IH [of "i + 1" y "max lh (natural_height ch)"] nz
    obtain ys2 where ys2: "row_coords chs ncols sp (i + 1) y (max lh (natural_height ch)) = Inr ys2"
      by blast
    from True nz ys1 ys2 show ?thesis by simp
  qed
qed

lemma column_coords_length:
  "length (column_coords chs x step) = length (filter is_visible chs) + 1"
  by (induction chs arbitrary: x) auto

lemma column_coords_sorted:
  "0 \<le> step \<Longrightarrow> sorted (column_coords chs x step) \<and> (\<forall>v \<in> set (column_coords chs x step). x \<le> v)"
proof (induction chs arbitrary: x)
  case Nil
  show ?case by simp
next
  case (Cons ch chs)
  from Cons.IH [OF Cons.prems, of "x + step"] Cons.IH [OF Cons.prems, of x] Cons.prems
  show ?case by force
qed

lemma column_coords_hd: "hd (column_coords chs x step) = x"
  by (induction chs arbitrary: x) auto

lemma row_coords_sorted:
  assumes "0 \<le> sp" "0 \<le> lh" "row_coords chs ncols sp i y lh = Inr ys"
  shows "sorted ys \<and> (\<forall>v \<in> set ys. y \<le> v)"
  using assms
proof (induction chs arbitrary: i y lh ys)
  case Nil
  then show ?case by auto
next
  case (Cons ch chs)
  show ?case
  proof (cases "is_visible ch")
    case False
    with Cons show ?thesis by simp
  next
    case vis: True
    from Cons.prems vis have nz: "ncols \<noteq> 0" by (auto split: if_splits)
    show ?thesis
    proof (cases "i smod ncols = 0")
      case True
      with Cons.prems vis nz obtain ys' where
        ys': "row_coords chs ncols sp (i + 1) (y + (lh + sp)) (max 0 (natural_height ch)) = Inr ys'"
        and ys: "ys = (y + (lh + sp)) # ys'"
        by (auto split: sum.splits)
      from Cons.IH [OF Cons.prems(1) _ ys'] have "sorted ys' \<and> (\<forall>v \<in> set ys'. y + (lh + sp) \<le> v)"
        by simp
      with ys Cons.prems(1,2) show ?thesis by force
    next
      case False
      with Cons.prems vis nz have
        ys': "row_coords chs ncols sp (i + 1) y (max lh (natural_height ch)) = Inr ys"
        by simp
      from Cons.IH [OF Cons.prems(1) _ ys'] Cons.prems(2) show ?thesis by simp
    qed
  qed
qed

section \<open>The number of row coordinates\<close>

lemma smod_nonneg: "0 \<le> i \<Longrightarrow> 0 < c \<Longrightarrow> i smod c = i mod (c::int)"
  by (cases "i = 0") (simp_all add: smod_int_alt_def)

lemma sdiv_nonneg: "0 \<le> i \<Longrightarrow> 0 < c \<Longrightarrow> i sdiv c = i div (c::int)"
  by (cases "i = 0") (simp_all add: signed_divide_int_def)

lemma cdiv_step_dvd:
  fixes i c :: int
  assumes "0 < c" "i mod c = 0"
  shows "(i + 1 + c - 1) div c = (i + c - 1) div c + 1"
proof -
  define q where "q = i div c"
  have i: "i = c * q" using assms(2) mult_div_mod_eq [of c i] by (simp add: q_def)
  have a: "(i + 1 + c - 1) div c = q + 1"
    by (rule int_div_pos_eq [where r = 0]) (use assms(1) i in \<open>simp_all add: algebra_simps\<close>)
  have b: "(i + c - 1) div c = q"
    by (rule int_div_pos_eq [where r = "c - 1"]) (use assms(1) i in \<open>simp_all add: algebra_simps\<close>)
  from a b show ?thesis by simp
qed

lemma cdiv_step_not_dvd:
  fixes i c :: int
  assumes "0 < c" "i mod c \<noteq> 0"
  shows "(i + 1 + c - 1) div c = (i + c - 1) div c"
proof -
  define q where "q = i div c"
  define r where "r = i mod c"
  have i: "i = c * q + r" by (simp add: q_def r_def)
  have "0 \<le> i mod c" "i mod c < c"
    using assms(1) by simp_all
  with assms(2) have r: "0 < r" "r < c"
    by (simp_all add: r_def)
  have a: "(i + 1 + c - 1) div c = q + 1"
    by (rule int_div_pos_eq [where r = r]) (use r i in \<open>simp_all add: algebra_simps\<close>)
  have b: "(i + c - 1) div c = q + 1"
    by (rule int_div_pos_eq [where r = "r - 1"]) (use r i in \<open>simp_all add: algebra_simps\<close>)
  from a b show ?thesis by simp
qed

lemma ceiling_div_eq:
  fixes a c :: int
  assumes "0 < c"
  shows "\<lceil>of_int a / (of_int c :: real)\<rceil> = (a + c - 1) div c"
proof -
  define q where "q = (a + c - 1) div c"
  define r where "r = (a + c - 1) mod c"
  have e: "a + c - 1 = c * q + r" by (simp add: q_def r_def)
  have r: "0 \<le> r" "r < c"
    using assms pos_mod_sign [of c "a + c - 1"] pos_mod_bound [of c "a + c - 1"]
    by (simp_all add: r_def)
  have "(- a) div c = - q"
    by (rule int_div_pos_eq [where r = "c - 1 - r"]) (use r e in \<open>simp_all add: algebra_simps\<close>)
  then show ?thesis
    by (simp add: ceiling_divide_eq_div q_def)
qed

lemma row_coords_length:
  assumes "0 < ncols" "0 \<le> i" "row_coords chs ncols sp i y lh = Inr ys"
  shows "int (length ys) =
           1 + (i + int (length (filter is_visible chs)) + ncols - 1) div ncols
             - (i + ncols - 1) div ncols"
  using assms(2,3)
proof (induction chs arbitrary: i y lh ys)
  case Nil
  then show ?case by auto
next
  case (Cons ch chs)
  show ?case
  proof (cases "is_visible ch")
    case False
    with Cons show ?thesis by simp
  next
    case vis: True
    have i1: "0 \<le> i + 1" using Cons.prems(1) by simp
    have sm: "i smod ncols = i mod ncols"
      using Cons.prems(1) assms(1) by (rule smod_nonneg)
    show ?thesis
    proof (cases "i mod ncols = 0")
      case True
      with Cons.prems vis assms(1) sm obtain ys' where
        ys': "row_coords chs ncols sp (i + 1) (y + (lh + sp)) (max 0 (natural_height ch)) = Inr ys'"
        and ys: "ys = (y + (lh + sp)) # ys'"
        by (auto split: sum.splits)
      from Cons.IH [OF i1 ys'] ys vis cdiv_step_dvd [OF assms(1) True]
      show ?thesis by (simp add: algebra_simps)
    next
      case False
      with Cons.prems vis assms(1) sm have
        ys': "row_coords chs ncols sp (i + 1) y (max lh (natural_height ch)) = Inr ys"
        by simp
      from Cons.IH [OF i1 ys'] vis cdiv_step_not_dvd [OF assms(1) False]
      show ?thesis by (simp add: algebra_simps)
    qed
  qed
qed

lemma row_coords_length_ceiling:
  assumes "0 < ncols" "row_coords chs ncols sp 0 y lh = Inr ys"
  shows "int (length ys) = \<lceil>of_int (number_visible chs) / (of_int ncols :: real)\<rceil> + 1"
proof -
  have z: "(0 + ncols - 1) div ncols = 0"
    using assms(1) by simp
  have c: "\<lceil>of_int (number_visible chs) / (of_int ncols :: real)\<rceil>
             = (number_visible chs + ncols - 1) div ncols"
    using assms(1) by (rule ceiling_div_eq)
  have "int (length ys) = 1 + (number_visible chs + ncols - 1) div ncols"
    using row_coords_length [OF assms(1) _ assms(2)] z by (simp add: number_visible_eq)
  with c show ?thesis by simp
qed

lemma row_coords_no_visible:
  "filter is_visible chs = [] \<Longrightarrow> row_coords chs ncols sp i y lh = Inr [y + lh]"
  by (induction chs) (auto split: if_splits)

section \<open>The shape of the grid after an update\<close>

lemma determine_rows_columns_cases:
  assumes "determine_rows_columns n lw lh cs rs m w h = Inr (r, c, cw, chh)"
  shows "(w < 0 \<and> h < 0 \<and> r = 1 \<and> c = n \<and> cw = lw \<and> chh = lh)
       \<or> (\<not> (w < 0 \<and> h < 0) \<and> m = HEIGHT_FOR_WIDTH \<and> fit_axis n lw cs w = Inr (c, r, cw) \<and> chh = lh)
       \<or> (\<not> (w < 0 \<and> h < 0) \<and> m = WIDTH_FOR_HEIGHT \<and> fit_axis n lh rs h = Inr (r, c, chh) \<and> cw = lw)"
  using assms
  by (auto simp: determine_rows_columns_def split: if_splits sum.splits)

lemma effective_request_mode_HfW:
  "effective_request_mode m w h = HEIGHT_FOR_WIDTH \<Longrightarrow> 0 \<le> w"
  by (auto simp: effective_request_mode_def split: if_splits)

lemma effective_request_mode_WfH:
  "effective_request_mode m w h = WIDTH_FOR_HEIGHT \<Longrightarrow> \<not> (w < 0 \<and> h < 0) \<Longrightarrow> 0 \<le> h"
  by (auto simp: effective_request_mode_def split: if_splits)

lemma fit_axis_cell_nonneg:
  assumes "fit_axis n largest spacing avail = Inr (k, m, cell)"
    and "0 \<le> avail" "0 \<le> largest" "0 \<le> n"
  shows "0 \<le> cell"
proof -
  from fit_axis_Inr [OF assms] have k: "1 \<le> k"
    and cell: "cell = of_int \<lfloor>avail - of_int (k - 1) * spacing\<rfloor> / of_int k"
    and fits: "k = 1 \<or> of_int k * largest + of_int (k - 1) * spacing \<le> avail"
    by simp_all
  have "0 \<le> avail - of_int (k - 1) * spacing"
  proof (cases "k = 1")
    case True
    with assms(2) show ?thesis by simp
  next
    case False
    with fits have "of_int k * largest + of_int (k - 1) * spacing \<le> avail" by simp
    moreover have "0 \<le> of_int k * largest" using k assms(3) by simp
    ultimately show ?thesis by linarith
  qed
  then have "0 \<le> \<lfloor>avail - of_int (k - 1) * spacing\<rfloor>" by simp
  with k cell show ?thesis by simp
qed

text \<open>Everything the later proofs need to know about a completed update.\<close>

lemma update_shape:
  assumes upd: "update_layout_data self cont w h = Inr priv"
  shows "\<exists>cw ys.
      columnCoords priv = Some (column_coords (actor_children cont) 0 (cw + columnSpacing self))
    \<and> row_coords (actor_children cont) (columns priv) (rowSpacing self) 0 (- rowSpacing self) 0
         = Inr ys
    \<and> rowCoords priv = Some ys \<and> 0 \<le> cw
    \<and> rowSpacing priv = rowSpacing self \<and> columnSpacing priv = columnSpacing self
    \<and> (\<exists>r c chh. determine_rows_columns (number_visible (actor_children cont))
            (largest_width (actor_children cont)) (largest_height (actor_children cont))
            (columnSpacing self) (rowSpacing self)
            (effective_request_mode (actor_request_mode cont) w h) w h = Inr (r, c, cw, chh))
    \<and> ((w < 0 \<and> h < 0 \<and> rows priv = 1 \<and> columns priv = number_visible (actor_children cont)
          \<and> cw = largest_width (actor_children cont))
      \<or> (\<not> (w < 0 \<and> h < 0)
          \<and> effective_request_mode (actor_request_mode cont) w h = HEIGHT_FOR_WIDTH
          \<and> 0 \<le> w
          \<and> 1 \<le> columns priv \<and> columns priv \<le> number_visible (actor_children cont)
          \<and> rows priv = \<lceil>of_int (number_visible (actor_children cont))
                            / (of_int (columns priv) :: real)\<rceil>
          \<and> cw = of_int \<lfloor>w - of_int (columns priv - 1) * columnSpacing self\<rfloor>
                   / of_int (columns priv)
          \<and> (largest_width (actor_children cont) = 0 \<longrightarrow>
               columns priv = shrink (number_visible (actor_children cont) + 1) 0
                                (columnSpacing self) w))
      \<or> (\<not> (w < 0 \<and> h < 0)
          \<and> effective_request_mode (actor_request_mode cont) w h = WIDTH_FOR_HEIGHT
          \<and> 0 \<le> h
          \<and> 1 \<le> rows priv \<and> rows priv \<le> number_visible (actor_children cont)
          \<and> columns priv = \<lceil>of_int (number_visible (actor_children cont))
                               / (of_int (rows priv) :: real)\<rceil>
          \<and> cw = largest_width (actor_children cont)
          \<and> (largest_height (actor_children cont) = 0 \<longrightarrow>
               rows priv = shrink (number_visible (actor_children cont) + 1) 0
                             (rowSpacing self) h)))"
proof -
  let ?chs = "actor_children cont"
  let ?n = "number_visible ?chs"
  let ?m = "effective_request_mode (actor_request_mode cont) w h"
  have n0: "0 \<le> ?n" by (simp add: number_visible_eq)
  from update_layout_data_Inr [OF upd] obtain r c cw chh ys where
    det: "determine_rows_columns ?n (largest_width ?chs) (largest_height ?chs)
            (columnSpacing self) (rowSpacing self) ?m w h = Inr (r, c, cw, chh)"
    and rc: "row_coords ?chs c (rowSpacing self) 0 (- rowSpacing self) 0 = Inr ys"
    and flds: "rows priv = r" "columns priv = c"
      "columnCoords priv = Some (column_coords ?chs 0 (cw + columnSpacing self))"
      "rowCoords priv = Some ys" "rowSpacing priv = rowSpacing self"
      "columnSpacing priv = columnSpacing self"
    by blast
  from determine_rows_columns_cases [OF det]
  consider (both) "w < 0" "h < 0" "r = 1" "c = ?n" "cw = largest_width ?chs"
    | (hfw) "\<not> (w < 0 \<and> h < 0)" "?m = HEIGHT_FOR_WIDTH"
        "fit_axis ?n (largest_width ?chs) (columnSpacing self) w = Inr (c, r, cw)"
    | (wfh) "\<not> (w < 0 \<and> h < 0)" "?m = WIDTH_FOR_HEIGHT"
        "fit_axis ?n (largest_height ?chs) (rowSpacing self) h = Inr (r, c, chh)"
        "cw = largest_width ?chs"
    by blast
  then show ?thesis
  proof cases
    case both
    with det rc flds largest_width_ge [of ?chs] show ?thesis by auto
  next
    case hfw
    have w0: "0 \<le> w" using hfw(2) by (rule effective_request_mode_HfW)
    note fa = fit_axis_Inr [OF hfw(3) w0 largest_width_ge n0]
    have "0 \<le> cw" using hfw(3) w0 largest_width_ge n0 by (rule fit_axis_cell_nonneg)
    with det rc flds hfw(1,2) w0 fa show ?thesis by auto
  next
    case wfh
    have h0: "0 \<le> h" using wfh(2,1) by (rule effective_request_mode_WfH)
    note fa = fit_axis_Inr [OF wfh(3) h0 largest_height_ge n0]
    have "0 \<le> cw" using wfh(4) largest_width_ge [of ?chs] by simp
    with det rc flds wfh(1,2,4) h0 fa show ?thesis by auto
  qed
qed

section \<open>When an update completes\<close>

lemma fit_axis_total_zero:
  assumes "0 \<le> avail" "0 < n"
  shows "\<exists>k m cell. fit_axis n 0 spacing avail = Inr (k, m, cell)"
proof -
  from candidate [of avail 0 n] assms obtain k0 where
    k0: "to_gint (ieee_plus_one (MIN_ieee (ieee_ceil (fdiv avail 0))
                  (Finite (of_int n)))) = Some k0"
    and k0_ge: "k0 = n + 1"
    by auto
  have "1 \<le> shrink k0 0 spacing avail"
    using shrink_ge [of k0 0 spacing avail] k0_ge assms(2) by simp
  then have nz: "shrink k0 0 spacing avail \<noteq> 0" by simp
  show ?thesis
    using k0 nz by (simp add: fit_axis_def fdiv_def Let_def)
qed

lemma update_completes:
  assumes n: "0 < number_visible (actor_children cont)"
    and fit: "\<exists>k m cell.
       fit_axis (number_visible (actor_children cont))
         (if effective_request_mode (actor_request_mode cont) w h = HEIGHT_FOR_WIDTH
          then largest_width (actor_children cont) else largest_height (actor_children cont))
         (if effective_request_mode (actor_request_mode cont) w h = HEIGHT_FOR_WIDTH
          then columnSpacing self else rowSpacing self)
         (if effective_request_mode (actor_request_mode cont) w h = HEIGHT_FOR_WIDTH
          then w else h) = Inr (k, m, cell)"
    and mode: "effective_request_mode (actor_request_mode cont) w h \<noteq> OTHER_REQUEST_MODE"
    and constrained: "\<not> (w < 0 \<and> h < 0)"
  shows "\<exists>priv. update_layout_data self cont w h = Inr priv"
proof -
  let ?chs = "actor_children cont"
  let ?n = "number_visible ?chs"
  let ?m = "effective_request_mode (actor_request_mode cont) w h"
  have n0: "0 \<le> ?n" using n by simp
  from fit obtain k m cell where fa: "fit_axis ?n
         (if ?m = HEIGHT_FOR_WIDTH then largest_width ?chs else largest_height ?chs)
         (if ?m = HEIGHT_FOR_WIDTH then columnSpacing self else rowSpacing self)
         (if ?m = HEIGHT_FOR_WIDTH then w else h) = Inr (k, m, cell)"
    by blast
  show ?thesis
  proof (cases "?m = HEIGHT_FOR_WIDTH")
    case True
    with fa have fa': "fit_axis ?n (largest_width ?chs) (columnSpacing self) w = Inr (k, m, cell)"
      by simp
    have w0: "0 \<le> w" using True by (rule effective_request_mode_HfW)
    from fit_axis_Inr [OF fa' w0 largest_width_ge n0] have "k \<noteq> 0" by simp
    then obtain ys where
      ys: "row_coords ?chs k (rowSpacing self) 0 (- rowSpacing self) 0 = Inr ys"
      using row_coords_total [of k ?chs] by blast
    have "determine_rows_columns ?n (largest_width ?chs) (largest_height ?chs)
            (columnSpacing self) (rowSpacing self) ?m w h
          = Inr (m, k, cell, largest_height ?chs)"
      using True fa' constrained by (auto simp: determine_rows_columns_def)
    from update_layout_data_total [OF this ys] show ?thesis .
  next
    case False
    with mode have wfh: "?m = WIDTH_FOR_HEIGHT" by (cases ?m) simp_all
    with fa have fa': "fit_axis ?n (largest_height ?chs) (rowSpacing self) h = Inr (k, m, cell)"
      by simp
    have h0: "0 \<le> h" using wfh constrained by (rule effective_request_mode_WfH)
    from fit_axis_Inr [OF fa' h0 largest_height_ge n0]
    have k: "1 \<le> k" and m: "m = \<lceil>of_int ?n / (of_int k :: real)\<rceil>" by simp_all
    have "?n \<le> m * k" using ceil_div_bounds(1) [of k ?n] k m by simp
    with n k have "m \<noteq> 0" by auto
    then obtain ys where
      ys: "row_coords ?chs m (rowSpacing self) 0 (- rowSpacing self) 0 = Inr ys"
      using row_coords_total [of m ?chs] by blast
    have "determine_rows_columns ?n (largest_width ?chs) (largest_height ?chs)
            (columnSpacing self) (rowSpacing self) ?m w h
          = Inr (k, m, largest_width ?chs, cell)"
      using wfh fa' constrained by (auto simp: determine_rows_columns_def)
    from update_layout_data_total [OF this ys] show ?thesis .
  qed
qed

lemma update_completes_unconstrained:
  assumes "w < 0" "h < 0"
  shows "\<exists>priv. update_layout_data self cont w h = Inr priv"
proof -
  let ?chs = "actor_children cont"
  have "number_visible ?chs \<noteq> 0 \<or> filter is_visible ?chs = []"
    by (simp add: number_visible_eq)
  then obtain ys where
    ys: "row_coords ?chs (number_visible ?chs) (rowSpacing self) 0 (- rowSpacing self) 0 = Inr ys"
    using row_coords_total [of "number_visible ?chs" ?chs] by blast
  have "determine_rows_columns (number_visible ?chs) (largest_width ?chs) (largest_height ?chs)
            (columnSpacing self) (rowSpacing self)
            (effective_request_mode (actor_request_mode cont) w h) w h
          = Inr (1, number_visible ?chs, largest_width ?chs, largest_height ?chs)"
    using assms by (simp add: determine_rows_columns_def)
  from update_layout_data_total [OF this ys] show ?thesis .
qed

lemma update_completes_positive:
  assumes n: "0 < number_visible (actor_children cont)"
    and "(w < 0 \<and> h < 0)
       \<or> (effective_request_mode (actor_request_mode cont) w h = HEIGHT_FOR_WIDTH \<and> 0 < w)
       \<or> (effective_request_mode (actor_request_mode cont) w h = WIDTH_FOR_HEIGHT \<and> 0 < h)"
  shows "\<exists>priv. update_layout_data self cont w h = Inr priv"
proof -
  let ?chs = "actor_children cont"
  from assms(2) consider (both) "w < 0" "h < 0"
    | (hfw) "effective_request_mode (actor_request_mode cont) w h = HEIGHT_FOR_WIDTH" "0 < w"
    | (wfh) "effective_request_mode (actor_request_mode cont) w h = WIDTH_FOR_HEIGHT" "0 < h"
    by blast
  then show ?thesis
  proof cases
    case both
    then show ?thesis by (rule update_completes_unconstrained)
  next
    case hfw
    from fit_axis_total [OF hfw(2) largest_width_ge n]
    have "\<exists>k m cell. fit_axis (number_visible ?chs) (largest_width ?chs) (columnSpacing self) w
             = Inr (k, m, cell)" .
    with hfw show ?thesis
      by (intro update_completes [OF n]) auto
  next
    case wfh
    from fit_axis_total [OF wfh(2) largest_height_ge n]
    have "\<exists>k m cell. fit_axis (number_visible ?chs) (largest_height ?chs) (rowSpacing self) h
             = Inr (k, m, cell)" .
    with wfh show ?thesis
      by (intro update_completes [OF n]) auto
  qed
qed

section \<open>Evaluation on concrete inputs\<close>

text \<open>The equations that evaluate the model on a concrete container.\<close>

lemmas eval_defs =
  update_layout_data_def effective_request_mode_def determine_rows_columns_def fit_axis_def
  fdiv_def MIN_ieee_def notify_def layout_init_def numeral_eq_Suc shrink.simps
  smod_int_alt_def signed_divide_int_def number_visible_def largest_width_def largest_height_def

section \<open>Claims about the shape of the grid\<close>

text \<open>
  What every completed update with at least one visible child guarantees about the
  stored counts: \<open>rows * columns \<ge> n\<close>; \<open>(rows - 1) * columns < n\<close> when both sizes are
  unset or the columns are fitted into a width; only \<open>rows * (columns - 1) < n\<close> when
  the rows are fitted into a height. The update completes whenever both sizes are unset
  or the constrained size that drives the derivation is positive.
\<close>

lemma grid_shape_after_update:
  assumes "0 < number_visible (actor_children cont)"
  shows "(\<forall>priv. update_layout_data self cont w h = Inr priv \<longrightarrow>
            number_visible (actor_children cont) \<le> rows priv * columns priv \<and>
            (if \<not> (w < 0 \<and> h < 0) \<and>
                effective_request_mode (actor_request_mode cont) w h = WIDTH_FOR_HEIGHT
             then rows priv * (columns priv - 1) < number_visible (actor_children cont)
             else (rows priv - 1) * columns priv < number_visible (actor_children cont)))
       \<and> ((w < 0 \<and> h < 0)
            \<or> (effective_request_mode (actor_request_mode cont) w h = HEIGHT_FOR_WIDTH \<and> 0 < w)
            \<or> (effective_request_mode (actor_request_mode cont) w h = WIDTH_FOR_HEIGHT \<and> 0 < h)
          \<longrightarrow> (\<exists>priv. update_layout_data self cont w h = Inr priv))"
proof (intro conjI allI impI)
  let ?n = "number_visible (actor_children cont)"
  fix priv
  assume upd: "update_layout_data self cont w h = Inr priv"
  from update_shape [OF upd]
  consider (both) "w < 0" "h < 0" "rows priv = 1" "columns priv = ?n"
    | (hfw) "\<not> (w < 0 \<and> h < 0)"
        "effective_request_mode (actor_request_mode cont) w h = HEIGHT_FOR_WIDTH"
        "1 \<le> columns priv" "rows priv = \<lceil>of_int ?n / (of_int (columns priv) :: real)\<rceil>"
    | (wfh) "\<not> (w < 0 \<and> h < 0)"
        "effective_request_mode (actor_request_mode cont) w h = WIDTH_FOR_HEIGHT"
        "1 \<le> rows priv" "columns priv = \<lceil>of_int ?n / (of_int (rows priv) :: real)\<rceil>"
    by blast
  then show "?n \<le> rows priv * columns priv"
  proof cases
    case both
    then show ?thesis by simp
  next
    case hfw
    with ceil_div_bounds(1) [of "columns priv" ?n] show ?thesis by simp
  next
    case wfh
    with ceil_div_bounds(1) [of "rows priv" ?n] show ?thesis by (simp add: mult.commute)
  qed
  from update_shape [OF upd]
  consider (both) "w < 0" "h < 0" "rows priv = 1" "columns priv = ?n"
    | (hfw) "\<not> (w < 0 \<and> h < 0)"
        "effective_request_mode (actor_request_mode cont) w h = HEIGHT_FOR_WIDTH"
        "1 \<le> columns priv" "rows priv = \<lceil>of_int ?n / (of_int (columns priv) :: real)\<rceil>"
    | (wfh) "\<not> (w < 0 \<and> h < 0)"
        "effective_request_mode (actor_request_mode cont) w h = WIDTH_FOR_HEIGHT"
        "1 \<le> rows priv" "columns priv = \<lceil>of_int ?n / (of_int (rows priv) :: real)\<rceil>"
    by blast
  then show "if \<not> (w < 0 \<and> h < 0) \<and>
                effective_request_mode (actor_request_mode cont) w h = WIDTH_FOR_HEIGHT
             then rows priv * (columns priv - 1) < ?n
             else (rows priv - 1) * columns priv < ?n"
  proof cases
    case both
    with assms show ?thesis by simp
  next
    case hfw
    with ceil_div_bounds(2) [of "columns priv" ?n] show ?thesis by simp
  next
    case wfh
    with ceil_div_bounds(2) [of "rows priv" ?n] show ?thesis by (simp add: mult.commute)
  qed
next
  assume "(w < 0 \<and> h < 0)
            \<or> (effective_request_mode (actor_request_mode cont) w h = HEIGHT_FOR_WIDTH \<and> 0 < w)
            \<or> (effective_request_mode (actor_request_mode cont) w h = WIDTH_FOR_HEIGHT \<and> 0 < h)"
  with assms show "\<exists>priv. update_layout_data self cont w h = Inr priv"
    by (rule update_completes_positive)
qed

text \<open>
  Claim C1 at five children of 100 x 50 in a height of 200 with the width unset
  (width-for-height): the loop fits 4 rows into the height, \<open>columns = \<lceil>5 / 4\<rceil> = 2\<close>,
  and \<open>rows = 4\<close> is stored although two columns lay the children out in 3 rows:
  \<open>(rows - 1) * columns = 6\<close> is not below 5, and \<^verbatim>\<open>rowCoords\<close> has 4 entries, none at
  index \<open>rows\<close>. The height-for-width branch, given the width 200 of that layout,
  stores \<open>rows = \<lceil>5 / 2\<rceil> = 3\<close>.
\<close>

theorem width_for_height_rows_overstated:
  "update_layout_data layout_init five_children (- 1) 200 = Inr five_children_height_200
   \<and> number_visible (actor_children five_children) = 5
   \<and> rows five_children_height_200 = 4 \<and> columns five_children_height_200 = 2
   \<and> \<not> ((rows five_children_height_200 - 1) * columns five_children_height_200
          < number_visible (actor_children five_children))
   \<and> map_option length (rowCoords five_children_height_200) = Some 4
   \<and> g_array_index (rowCoords five_children_height_200) (rows five_children_height_200)
       = Inl IndexOutOfRange
   \<and> update_layout_data layout_init five_children 200 (- 1)
       = Inr \<lparr>rowSpacing = 0, columnSpacing = 0, rows = 3, columns = 2, numberChildren = 5,
              columnCoords = Some [0, 100, 200, 300, 400, 500],
              rowCoords = Some [0, 50, 100, 150],
              emitted = [Notify PROP_NUMBER_CHILDREN, Notify PROP_ROWS, Notify PROP_COLUMNS]\<rparr>"
  by (simp add: g_array_index_def eval_defs)

text \<open>
  Claim C3. Five visible children of natural size 100 x 50, both spacings 0, width 250
  and the height not set: the request mode is height-for-width, and the update yields
  2 columns, 3 rows and a cell width of 125 (the column coordinates advance by 125).
\<close>

theorem example_five_children_width_250:
  assumes "rowSpacing self = 0" "columnSpacing self = 0" "inHeight < 0"
    and "actor_children cont = replicate 5 child_100x50"
  shows "effective_request_mode (actor_request_mode cont) 250 inHeight = HEIGHT_FOR_WIDTH
       \<and> determine_rows_columns (number_visible (actor_children cont))
            (largest_width (actor_children cont)) (largest_height (actor_children cont))
            (columnSpacing self) (rowSpacing self)
            (effective_request_mode (actor_request_mode cont) 250 inHeight) 250 inHeight
          = Inr (3, 2, 125, 50)
       \<and> (\<exists>priv. update_layout_data self cont 250 inHeight = Inr priv
             \<and> columns priv = 2 \<and> rows priv = 3
             \<and> columnCoords priv = Some [0, 125, 250, 375, 500, 625])"
  using assms by (simp add: eval_defs)

theorem example_five_children_width_250_witness:
  "rowSpacing layout_init = 0 \<and> columnSpacing layout_init = 0 \<and> (- 1 :: real) < 0
   \<and> actor_children five_children = replicate 5 child_100x50
   \<and> effective_request_mode (actor_request_mode five_children) 250 (- 1) = HEIGHT_FOR_WIDTH
   \<and> update_layout_data layout_init five_children 250 (- 1) =
     Inr \<lparr>rowSpacing = 0, columnSpacing = 0, rows = 3, columns = 2, numberChildren = 5,
          columnCoords = Some [0, 125, 250, 375, 500, 625], rowCoords = Some [0, 50, 100, 150],
          emitted = [Notify PROP_NUMBER_CHILDREN, Notify PROP_ROWS, Notify PROP_COLUMNS]\<rparr>"
proof -
  have a: "rowSpacing layout_init = 0" "columnSpacing layout_init = 0"
    by (simp_all add: layout_init_def)
  have b: "(- 1 :: real) < 0" by simp
  have c: "actor_children five_children = replicate 5 child_100x50" by simp
  have u: "update_layout_data layout_init five_children 250 (- 1) =
     Inr \<lparr>rowSpacing = 0, columnSpacing = 0, rows = 3, columns = 2, numberChildren = 5,
          columnCoords = Some [0, 125, 250, 375, 500, 625], rowCoords = Some [0, 50, 100, 150],
          emitted = [Notify PROP_NUMBER_CHILDREN, Notify PROP_ROWS, Notify PROP_COLUMNS]\<rparr>"
    by (simp add: eval_defs)
  from example_five_children_width_250 [OF a b c] a b c u show ?thesis by simp
qed

section \<open>Claims about the spacing setters\<close>

text \<open>
  Claim C9. The combined setter, called with a value \<open>v \<ge> 0\<close> that differs from at
  least one of the two spacings, stores \<open>v\<close> in both (the getters return it) and emits
  the two property notifications followed by exactly one layout-changed signal.
\<close>

theorem set_spacing_single_layout_changed:
  assumes "0 \<le> v" and "rowSpacing self \<noteq> v \<or> columnSpacing self \<noteq> v"
  shows "get_row_spacing (set_spacing self v) = v
       \<and> get_column_spacing (set_spacing self v) = v
       \<and> emitted (set_spacing self v) =
           emitted self @ [Notify PROP_ROW_SPACING, Notify PROP_COLUMN_SPACING, LayoutChanged]
       \<and> count_list (drop (length (emitted self)) (emitted (set_spacing self v)))
           LayoutChanged = 1"
  using assms
  by (auto simp: set_spacing_def get_row_spacing_def get_column_spacing_def notify_def
      layout_changed_def)

theorem set_spacing_single_layout_changed_witness:
  "(0 :: real) \<le> 10 \<and> rowSpacing layout_init \<noteq> 10
   \<and> get_row_spacing (set_spacing layout_init 10) = 10
   \<and> get_column_spacing (set_spacing layout_init 10) = 10
   \<and> emitted (set_spacing layout_init 10) =
       [Notify PROP_ROW_SPACING, Notify PROP_COLUMN_SPACING, LayoutChanged]"
proof -
  have a: "(0 :: real) \<le> 10" by simp
  have b: "rowSpacing layout_init \<noteq> 10"
    by (simp add: layout_init_def)
  then have c: "rowSpacing layout_init \<noteq> 10 \<or> columnSpacing layout_init \<noteq> 10" ..
  from set_spacing_single_layout_changed [OF a c] a b show ?thesis
    by (simp add: layout_init_def)
qed

text \<open>
  Claim C10. A setter called with the value that is already stored (for the combined
  setter: stored in both spacings) returns the object as it was: no field changes and
  nothing is emitted.
\<close>

theorem setters_same_value_no_effect:
  "(rowSpacing self = v \<longrightarrow> set_row_spacing self v = self)
   \<and> (columnSpacing self = v \<longrightarrow> set_column_spacing self v = self)
   \<and> (rowSpacing self = v \<and> columnSpacing self = v \<longrightarrow> set_spacing self v = self)"
  by (simp add: set_row_spacing_def set_column_spacing_def set_spacing_def)

theorem setters_same_value_no_effect_witness:
  "rowSpacing (set_spacing layout_init 10) = 10
   \<and> columnSpacing (set_spacing layout_init 10) = 10
   \<and> set_row_spacing (set_spacing layout_init 10) 10 = set_spacing layout_init 10
   \<and> set_column_spacing (set_spacing layout_init 10) 10 = set_spacing layout_init 10
   \<and> set_spacing (set_spacing layout_init 10) 10 = set_spacing layout_init 10"
proof -
  have a: "rowSpacing (set_spacing layout_init 10) = 10"
    "columnSpacing (set_spacing layout_init 10) = 10"
    by (simp_all add: set_spacing_def layout_init_def notify_def layout_changed_def)
  from setters_same_value_no_effect [of "set_spacing layout_init 10" 10] a show ?thesis
    by simp
qed

section \<open>Claims about the coordinate arrays\<close>

lemma row_coords_hd:
  assumes "filter is_visible chs \<noteq> []" "ncols \<noteq> 0"
    and "row_coords chs ncols sp 0 y lh = Inr ys"
  shows "hd ys = y + (lh + sp)"
  using assms
proof (induction chs)
  case Nil
  then show ?case by simp
next
  case (Cons ch chs)
  show ?case
  proof (cases "is_visible ch")
    case False
    with Cons show ?thesis by simp
  next
    case True
    with Cons.prems show ?thesis by (auto split: sum.splits)
  qed
qed

lemma ceil_div_pos:
  fixes n r :: int
  assumes "0 < n" "1 \<le> r"
  shows "0 < \<lceil>of_int n / (of_int r :: real)\<rceil>"
proof (rule ccontr)
  assume "\<not> 0 < \<lceil>of_int n / (of_int r :: real)\<rceil>"
  then have "\<lceil>of_int n / (of_int r :: real)\<rceil> * r \<le> 0"
    using assms(2) by (simp add: mult_le_0_iff)
  moreover have "n \<le> \<lceil>of_int n / (of_int r :: real)\<rceil> * r"
    using ceil_div_bounds(1) [of r n] assms(2) by simp
  ultimately show False using assms(1) by simp
qed

lemma ceiling_div_le:
  fixes n r :: int
  assumes "0 < n" "1 \<le> r"
  shows "\<lceil>of_int n / (of_int \<lceil>of_int n / (of_int r :: real)\<rceil> :: real)\<rceil> \<le> r"
proof -
  let ?c = "\<lceil>of_int n / (of_int r :: real)\<rceil>"
  have nc: "n \<le> ?c * r" using ceil_div_bounds(1) [of r n] assms(2) by simp
  have cpos: "0 < ?c" using assms by (rule ceil_div_pos)
  have "(of_int n :: real) \<le> of_int r * of_int ?c"
    using nc by (metis mult.commute of_int_le_iff of_int_mult)
  then have "of_int n / (of_int ?c :: real) \<le> of_int r"
    using cpos by (simp add: pos_divide_le_eq)
  then show ?thesis by (simp add: ceiling_le_iff)
qed


text \<open>
  Claim C5, as amended. After every update that completes (the spacings being
  non-negative), \<^verbatim>\<open>columnCoords\<close> is a non-decreasing sequence that starts with 0 and has
  one entry per visible child plus one, \<open>n + 1\<close> entries, which is at least
  \<open>columns + 1\<close>; \<^verbatim>\<open>rowCoords\<close> is a non-decreasing sequence with a single entry
  when no child is visible and otherwise with \<open>\<lceil>n / columns\<rceil> + 1\<close> entries starting
  with 0, which is at most \<open>rows + 1\<close>, and exactly \<open>rows + 1\<close> unless the rows were
  fitted into a height (width-for-height).
\<close>

theorem coordinate_arrays_after_update:
  assumes upd: "update_layout_data self cont w h = Inr priv"
    and rs0: "0 \<le> rowSpacing self" and cs0: "0 \<le> columnSpacing self"
  shows "\<exists>xs ys. columnCoords priv = Some xs \<and> rowCoords priv = Some ys
     \<and> sorted xs \<and> hd xs = 0
     \<and> int (length xs) = number_visible (actor_children cont) + 1
     \<and> columns priv + 1 \<le> int (length xs)
     \<and> sorted ys
     \<and> (number_visible (actor_children cont) = 0 \<longrightarrow> length ys = 1)
     \<and> (0 < number_visible (actor_children cont) \<longrightarrow>
           hd ys = 0
         \<and> int (length ys) = \<lceil>of_int (number_visible (actor_children cont))
                                  / (of_int (columns priv) :: real)\<rceil> + 1
         \<and> int (length ys) \<le> rows priv + 1
         \<and> (\<not> (\<not> (w < 0 \<and> h < 0) \<and>
               effective_request_mode (actor_request_mode cont) w h = WIDTH_FOR_HEIGHT)
              \<longrightarrow> int (length ys) = rows priv + 1))"
proof -
  let ?chs = "actor_children cont"
  let ?n = "number_visible ?chs"
  let ?m = "effective_request_mode (actor_request_mode cont) w h"
  from update_shape [OF upd] obtain cw ys where
    xs: "columnCoords priv = Some (column_coords ?chs 0 (cw + columnSpacing self))"
    and rc: "row_coords ?chs (columns priv) (rowSpacing self) 0 (- rowSpacing self) 0 = Inr ys"
    and ys: "rowCoords priv = Some ys" and cw0: "0 \<le> cw"
    and shape: "(w < 0 \<and> h < 0 \<and> rows priv = 1 \<and> columns priv = ?n)
      \<or> (\<not> (w < 0 \<and> h < 0) \<and> ?m = HEIGHT_FOR_WIDTH
          \<and> 1 \<le> columns priv \<and> columns priv \<le> ?n
          \<and> rows priv = \<lceil>of_int ?n / (of_int (columns priv) :: real)\<rceil>)
      \<or> (\<not> (w < 0 \<and> h < 0) \<and> ?m = WIDTH_FOR_HEIGHT
          \<and> 1 \<le> rows priv \<and> rows priv \<le> ?n
          \<and> columns priv = \<lceil>of_int ?n / (of_int (rows priv) :: real)\<rceil>)"
    by blast
  let ?xs = "column_coords ?chs 0 (cw + columnSpacing self)"
  have step: "0 \<le> cw + columnSpacing self" using cw0 cs0 by simp
  have sx: "sorted ?xs" using column_coords_sorted [OF step] by blast
  have hx: "hd ?xs = 0" by (rule column_coords_hd)
  have lx: "int (length ?xs) = ?n + 1"
    by (simp add: column_coords_length number_visible_eq)
  have sy: "sorted ys" using row_coords_sorted [OF rs0 _ rc] by simp
  have cn: "columns priv \<le> ?n"
  proof -
    from shape consider "columns priv = ?n" | "columns priv \<le> ?n"
      | "1 \<le> rows priv" "rows priv \<le> ?n"
        "columns priv = \<lceil>of_int ?n / (of_int (rows priv) :: real)\<rceil>"
      by blast
    then show ?thesis
    proof cases
      case 3
      have "(columns priv - 1) * rows priv < ?n"
        using ceil_div_bounds(2) [of "rows priv" ?n] 3 by simp
      moreover have "columns priv - 1 \<le> (columns priv - 1) * rows priv \<or> columns priv - 1 < 0"
        using 3(1) by (cases "columns priv - 1 < 0") (simp_all add: mult_le_cancel_left1)
      ultimately show ?thesis using 3(1,2) by linarith
    qed simp_all
  qed
  have y0: "?n = 0 \<longrightarrow> length ys = 1"
  proof
    assume "?n = 0"
    then have "filter is_visible ?chs = []" by (simp add: number_visible_eq)
    from row_coords_no_visible [OF this, of "columns priv" "rowSpacing self" 0 "- rowSpacing self" 0] rc
    show "length ys = 1" by auto
  qed
  have ypos: "0 < ?n \<longrightarrow>
           hd ys = 0
         \<and> int (length ys) = \<lceil>of_int ?n / (of_int (columns priv) :: real)\<rceil> + 1
         \<and> int (length ys) \<le> rows priv + 1
         \<and> (\<not> (\<not> (w < 0 \<and> h < 0) \<and> ?m = WIDTH_FOR_HEIGHT)
              \<longrightarrow> int (length ys) = rows priv + 1)"
  proof
    assume n: "0 < ?n"
    then have vis: "filter is_visible ?chs \<noteq> []" by (auto simp: number_visible_eq)
    have cpos: "0 < columns priv"
    proof -
      from shape consider "columns priv = ?n" | "1 \<le> columns priv"
        | "1 \<le> rows priv" "columns priv = \<lceil>of_int ?n / (of_int (rows priv) :: real)\<rceil>"
        by blast
      then show ?thesis
      proof cases
        case 3
        with ceil_div_pos [OF n 3(1)] show ?thesis by simp
      qed (use n in simp_all)
    qed
    have hy: "hd ys = 0" using row_coords_hd [OF vis _ rc] cpos by simp
    have ly: "int (length ys) = \<lceil>of_int ?n / (of_int (columns priv) :: real)\<rceil> + 1"
      using cpos rc by (rule row_coords_length_ceiling)
    from shape consider (both) "w < 0" "h < 0" "rows priv = 1" "columns priv = ?n"
      | (hfw) "\<not> (w < 0 \<and> h < 0)" "?m = HEIGHT_FOR_WIDTH"
          "rows priv = \<lceil>of_int ?n / (of_int (columns priv) :: real)\<rceil>"
      | (wfh) "\<not> (w < 0 \<and> h < 0)" "?m = WIDTH_FOR_HEIGHT" "1 \<le> rows priv"
          "columns priv = \<lceil>of_int ?n / (of_int (rows priv) :: real)\<rceil>"
      by blast
    then have "int (length ys) \<le> rows priv + 1
         \<and> (\<not> (\<not> (w < 0 \<and> h < 0) \<and> ?m = WIDTH_FOR_HEIGHT)
              \<longrightarrow> int (length ys) = rows priv + 1)"
    proof cases
      case both
      with ly n show ?thesis by simp
    next
      case hfw
      with ly show ?thesis by simp
    next
      case wfh
      with ly ceiling_div_le [OF n wfh(3)] show ?thesis by simp
    qed
    with hy ly show "hd ys = 0
         \<and> int (length ys) = \<lceil>of_int ?n / (of_int (columns priv) :: real)\<rceil> + 1
         \<and> int (length ys) \<le> rows priv + 1
         \<and> (\<not> (\<not> (w < 0 \<and> h < 0) \<and> ?m = WIDTH_FOR_HEIGHT)
              \<longrightarrow> int (length ys) = rows priv + 1)"
      by simp
  qed
  have cx: "columns priv + 1 \<le> int (length ?xs)" using cn lx by simp
  from xs ys sx hx lx cx sy y0 ypos show ?thesis by blast
qed

theorem coordinate_arrays_after_update_witness:
  "update_layout_data layout_init five_children 250 (- 1) = Inr five_children_width_250
   \<and> 0 \<le> rowSpacing layout_init \<and> 0 \<le> columnSpacing layout_init
   \<and> sorted [0, 125, 250, 375, 500, 625 :: real] \<and> sorted [0, 50, 100, 150 :: real]
   \<and> (\<exists>xs ys. columnCoords five_children_width_250 = Some xs
         \<and> rowCoords five_children_width_250 = Some ys
         \<and> int (length xs) = number_visible (actor_children five_children) + 1
         \<and> int (length ys) = rows five_children_width_250 + 1)"
proof -
  have u: "update_layout_data layout_init five_children 250 (- 1) = Inr five_children_width_250"
    by (simp add: eval_defs)
  have s: "0 \<le> rowSpacing layout_init" "0 \<le> columnSpacing layout_init"
    by (simp_all add: layout_init_def)
  have n: "number_visible (actor_children five_children) = 5"
    by (simp add: eval_defs)
  from coordinate_arrays_after_update [OF u s] u s n show ?thesis
    by (simp add: effective_request_mode_def)
qed

text \<open>
  Claim C5 as stated fails: the five children in a width of 250 are laid out in 2
  columns, and \<^verbatim>\<open>columnCoords\<close> has 6 entries, not 3.
\<close>

theorem column_coords_length_counterexample:
  "update_layout_data layout_init five_children 250 (- 1) = Inr five_children_width_250
   \<and> columns five_children_width_250 = 2
   \<and> map_option length (columnCoords five_children_width_250) = Some 6
   \<and> (6 :: nat) \<noteq> 2 + 1"
  by (simp add: eval_defs)

section \<open>Claims about the preferred width\<close>

lemma update_columns_range:
  assumes "update_layout_data self cont w h = Inr priv"
  shows "0 \<le> columns priv \<and> columns priv \<le> number_visible (actor_children cont)"
proof -
  let ?n = "number_visible (actor_children cont)"
  have n0: "0 \<le> ?n" by (simp add: number_visible_eq)
  from update_shape [OF assms]
  consider "columns priv = ?n" | "1 \<le> columns priv" "columns priv \<le> ?n"
    | "1 \<le> rows priv" "rows priv \<le> ?n"
      "columns priv = \<lceil>of_int ?n / (of_int (rows priv) :: real)\<rceil>"
    by blast
  then show ?thesis
  proof cases
    case 1
    with n0 show ?thesis by simp
  next
    case 2
    then show ?thesis by simp
  next
    case 3
    then have n: "0 < ?n" by simp
    have pos: "0 < columns priv" using ceil_div_pos [OF n 3(1)] 3(3) by simp
    have "(columns priv - 1) * rows priv < ?n"
      using ceil_div_bounds(2) [of "rows priv" ?n] 3 by simp
    moreover have "columns priv - 1 \<le> (columns priv - 1) * rows priv"
      using 3(1) pos by (simp add: mult_le_cancel_left1)
    ultimately show ?thesis using pos by linarith
  qed
qed

text \<open>
  Claim C6 at one visible child of 100 x 50 with a column spacing of 10, both sizes
  unset: the last column coordinate, which the preferred width returns as natural
  width, is \<open>110 = 1 * (100 + 10)\<close> and not \<open>1 * 100 + (1 - 1) * 10\<close>; it carries a
  spacing after the last column, while the minimum width of the same call counts
  \<open>columns - 1\<close> spacings. The preferred height of the same child with a row spacing
  of 10 is 50, without a spacing after the last row.
\<close>

theorem preferred_width_trailing_spacing:
  "get_preferred_width (layout_init\<lparr>columnSpacing := 10\<rparr>) one_child (- 1)
     = Inr (one_child_spacing_10, 0, 110)
   \<and> columns one_child_spacing_10 = 1
   \<and> largest_width (actor_children one_child) = 100
   \<and> g_array_index (columnCoords one_child_spacing_10) (columns one_child_spacing_10) = Inr 110
   \<and> (110 :: real) \<noteq> of_int (columns one_child_spacing_10) * 100
        + of_int (columns one_child_spacing_10 - 1) * columnSpacing one_child_spacing_10
   \<and> get_preferred_height (layout_init\<lparr>rowSpacing := 10\<rparr>) one_child (- 1)
     = Inr (one_child_row_spacing_10, 0, 50)"
  by (simp add: get_preferred_width_def get_preferred_height_def g_array_index_def eval_defs)

section \<open>Claims about children without extent\<close>

lemma shrink_spacings_fit:
  assumes "n = 1 \<or> of_int (n - 1) * sp \<le> avail"
  shows "shrink (n + 1) 0 sp avail = n"
  using assms by (subst shrink.simps) auto

text \<open>
  Claim C8, as amended. With \<open>n > 0\<close> visible children whose largest natural width is
  0, the height-for-width derivation completes without a guard: the quotient is an
  infinity or NaN, \<^verbatim>\<open>MIN\<close> selects \<open>n\<close>, and the loop runs from \<open>n + 1\<close> as for any
  other width, leaving between 1 and \<open>n\<close> columns. The result is \<open>columns = n\<close>
  whenever \<open>n = 1\<close> or the \<open>n - 1\<close> column spacings fit into the width, in particular
  for a column spacing of 0; when they do not fit, the loop may shrink the number of
  columns. The same holds for the rows when the largest natural height is 0 in the
  width-for-height derivation.
\<close>

theorem zero_largest_size:
  assumes n: "0 < number_visible (actor_children cont)"
  shows "(largest_width (actor_children cont) = 0 \<and>
          effective_request_mode (actor_request_mode cont) w h = HEIGHT_FOR_WIDTH
          \<longrightarrow> (\<exists>priv. update_layout_data self cont w h = Inr priv
                \<and> 1 \<le> columns priv \<and> columns priv \<le> number_visible (actor_children cont)
                \<and> (number_visible (actor_children cont) = 1 \<or>
                    of_int (number_visible (actor_children cont) - 1) * columnSpacing self \<le> w
                    \<longrightarrow> columns priv = number_visible (actor_children cont))))
       \<and> (largest_height (actor_children cont) = 0 \<and> 0 \<le> h \<and>
          effective_request_mode (actor_request_mode cont) w h = WIDTH_FOR_HEIGHT
          \<longrightarrow> (\<exists>priv. update_layout_data self cont w h = Inr priv
                \<and> 1 \<le> rows priv \<and> rows priv \<le> number_visible (actor_children cont)
                \<and> (number_visible (actor_children cont) = 1 \<or>
                    of_int (number_visible (actor_children cont) - 1) * rowSpacing self \<le> h
                    \<longrightarrow> rows priv = number_visible (actor_children cont))))"
proof (intro conjI impI)
  let ?chs = "actor_children cont"
  let ?n = "number_visible ?chs"
  let ?m = "effective_request_mode (actor_request_mode cont) w h"
  {
    assume a: "largest_width ?chs = 0 \<and> ?m = HEIGHT_FOR_WIDTH"
    then have w0: "0 \<le> w" by (auto dest: effective_request_mode_HfW)
    from fit_axis_total_zero [OF w0 n, of "columnSpacing self"] a
    have "\<exists>k m cell. fit_axis ?n
         (if ?m = HEIGHT_FOR_WIDTH then largest_width ?chs else largest_height ?chs)
         (if ?m = HEIGHT_FOR_WIDTH then columnSpacing self else rowSpacing self)
         (if ?m = HEIGHT_FOR_WIDTH then w else h) = Inr (k, m, cell)"
      by simp
    from update_completes [OF n this] a w0 obtain priv where
      upd: "update_layout_data self cont w h = Inr priv" by auto
    from update_shape [OF upd] a w0
    have c: "columns priv = shrink (?n + 1) 0 (columnSpacing self) w"
      and r: "1 \<le> columns priv" "columns priv \<le> ?n" by auto
    have "?n = 1 \<or> of_int (?n - 1) * columnSpacing self \<le> w \<longrightarrow> columns priv = ?n"
      using c shrink_spacings_fit [of ?n "columnSpacing self" w] by simp
    with upd r
    show "\<exists>priv. update_layout_data self cont w h = Inr priv
                \<and> 1 \<le> columns priv \<and> columns priv \<le> ?n
                \<and> (?n = 1 \<or> of_int (?n - 1) * columnSpacing self \<le> w
                    \<longrightarrow> columns priv = ?n)"
      by blast
  }
  {
    assume a: "largest_height ?chs = 0 \<and> 0 \<le> h \<and> ?m = WIDTH_FOR_HEIGHT"
    then have h0: "0 \<le> h" by simp
    from fit_axis_total_zero [OF h0 n, of "rowSpacing self"] a
    have "\<exists>k m cell. fit_axis ?n
         (if ?m = HEIGHT_FOR_WIDTH then largest_width ?chs else largest_height ?chs)
         (if ?m = HEIGHT_FOR_WIDTH then columnSpacing self else rowSpacing self)
         (if ?m = HEIGHT_FOR_WIDTH then w else h) = Inr (k, m, cell)"
      by simp
    from update_completes [OF n this] a h0 obtain priv where
      upd: "update_layout_data self cont w h = Inr priv" by auto
    from update_shape [OF upd] a h0
    have c: "rows priv = shrink (?n + 1) 0 (rowSpacing self) h"
      and r: "1 \<le> rows priv" "rows priv \<le> ?n" by auto
    have "?n = 1 \<or> of_int (?n - 1) * rowSpacing self \<le> h \<longrightarrow> rows priv = ?n"
      using c shrink_spacings_fit [of ?n "rowSpacing self" h] by simp
    with upd r
    show "\<exists>priv. update_layout_data self cont w h = Inr priv
                \<and> 1 \<le> rows priv \<and> rows priv \<le> ?n
                \<and> (?n = 1 \<or> of_int (?n - 1) * rowSpacing self \<le> h
                    \<longrightarrow> rows priv = ?n)"
      by blast
  }
qed

theorem zero_largest_size_witness:
  "0 < number_visible (actor_children three_flat_children)
   \<and> largest_width (actor_children three_flat_children) = 0
   \<and> effective_request_mode (actor_request_mode three_flat_children) 20 (- 1) = HEIGHT_FOR_WIDTH
   \<and> of_int (number_visible (actor_children three_flat_children) - 1) * (10 :: real) \<le> 20
   \<and> update_layout_data (layout_init\<lparr>columnSpacing := 10\<rparr>) three_flat_children 20 (- 1)
       = Inr \<lparr>rowSpacing = 0, columnSpacing = 10, rows = 1, columns = 3, numberChildren = 3,
              columnCoords = Some [0, 10, 20, 30], rowCoords = Some [0, 50],
              emitted = [Notify PROP_NUMBER_CHILDREN, Notify PROP_ROWS, Notify PROP_COLUMNS]\<rparr>
   \<and> number_visible (actor_children three_flat_children) = 3"
proof -
  have n: "0 < number_visible (actor_children three_flat_children)"
    by (simp add: eval_defs)
  have l: "largest_width (actor_children three_flat_children) = 0"
    by (simp add: eval_defs)
  have m: "effective_request_mode (actor_request_mode three_flat_children) 20 (- 1)
             = HEIGHT_FOR_WIDTH"
    by (simp add: effective_request_mode_def)
  have u: "update_layout_data (layout_init\<lparr>columnSpacing := 10\<rparr>) three_flat_children 20 (- 1)
       = Inr \<lparr>rowSpacing = 0, columnSpacing = 10, rows = 1, columns = 3, numberChildren = 3,
              columnCoords = Some [0, 10, 20, 30], rowCoords = Some [0, 50],
              emitted = [Notify PROP_NUMBER_CHILDREN, Notify PROP_ROWS, Notify PROP_COLUMNS]\<rparr>"
    by (simp add: eval_defs)
  have n3: "number_visible
      (replicate 3 \<lparr>is_visible = True, natural_width = 0, natural_height = 50\<rparr>) = 3"
    by (simp add: eval_defs)
  from zero_largest_size [OF n, of 20 "- 1" "layout_init\<lparr>columnSpacing := 10\<rparr>"] l m u
  show ?thesis by (simp add: layout_init_def n3)
qed

text \<open>
  Claim C8 as stated fails: three children of natural width 0, a column spacing of 10
  and a width of 5 give one column, not three.
\<close>

theorem zero_width_shrink_counterexample:
  "number_visible (actor_children three_flat_children) = 3
   \<and> largest_width (actor_children three_flat_children) = 0
   \<and> effective_request_mode (actor_request_mode three_flat_children) 5 (- 1) = HEIGHT_FOR_WIDTH
   \<and> update_layout_data (layout_init\<lparr>columnSpacing := 10\<rparr>) three_flat_children 5 (- 1)
       = Inr three_flat_children_width_5
   \<and> columns three_flat_children_width_5 = 1
   \<and> columns three_flat_children_width_5 \<noteq> number_visible (actor_children three_flat_children)"
  by (simp add: eval_defs)

section \<open>Allocation\<close>

lemma visible_positions_Cons:
  "[j \<leftarrow> [0..<length (ch # chs)]. is_visible ((ch # chs) ! j)]
     = (if is_visible ch then [0] else []) @ map Suc [j \<leftarrow> [0..<length chs]. is_visible (chs ! j)]"
proof -
  have "[0..<length (ch # chs)] = 0 # map Suc [0..<length chs]"
    by (simp add: upt_conv_Cons map_Suc_upt del: upt_Suc)
  then show ?thesis
    by (simp add: filter_map comp_def del: upt_Suc)
qed

lemma allocate_children_Inr:
  assumes "allocate_children priv chs k i = Inr bs"
  shows "map fst bs = map (\<lambda>j. k + j) [j \<leftarrow> [0..<length chs]. is_visible (chs ! j)]
       \<and> (\<forall>j < length bs. child_allocation priv (i + int j) = Inr (snd (bs ! j)))"
  using assms
proof (induction chs arbitrary: k i bs)
  case Nil
  then show ?case by simp
next
  case (Cons ch chs)
  show ?case
  proof (cases "is_visible ch")
    case False
    with Cons.prems have "allocate_children priv chs (Suc k) i = Inr bs" by simp
    from Cons.IH [OF this] False show ?thesis
      by (simp only: visible_positions_Cons) (simp add: comp_def)
  next
    case True
    with Cons.prems obtain b bs' where
      b: "child_allocation priv i = Inr b"
      and bs': "allocate_children priv chs (Suc k) (i + 1) = Inr bs'"
      and bs: "bs = (k, b) # bs'"
      by (auto split: sum.splits)
    from Cons.IH [OF bs'] have
      ih1: "map fst bs' = map (\<lambda>j. Suc k + j) [j \<leftarrow> [0..<length chs]. is_visible (chs ! j)]"
      and ih2: "\<forall>j < length bs'. child_allocation priv (i + 1 + int j) = Inr (snd (bs' ! j))"
      by simp_all
    have one: "map fst bs
        = map (\<lambda>j. k + j) [j \<leftarrow> [0..<length (ch # chs)]. is_visible ((ch # chs) ! j)]"
      using ih1 True bs by (simp only: visible_positions_Cons) (simp add: comp_def)
    have two: "\<forall>j < length bs. child_allocation priv (i + int j) = Inr (snd (bs ! j))"
    proof (intro allI impI)
      fix j assume j: "j < length bs"
      show "child_allocation priv (i + int j) = Inr (snd (bs ! j))"
      proof (cases j)
        case 0
        with b bs show ?thesis by simp
      next
        case (Suc j')
        with j bs have "j' < length bs'" by simp
        with ih2 have "child_allocation priv (i + 1 + int j') = Inr (snd (bs' ! j'))" by simp
        with Suc bs show ?thesis by (simp add: algebra_simps)
      qed
    qed
    from one two show ?thesis by simp
  qed
qed

lemma allocate_children_length:
  "allocate_children priv chs k i = Inr bs \<Longrightarrow> length bs = length (filter is_visible chs)"
proof (induction chs arbitrary: k i bs)
  case Nil
  then show ?case by simp
next
  case (Cons ch chs)
  show ?case
  proof (cases "is_visible ch")
    case False
    with Cons show ?thesis by simp
  next
    case True
    with Cons.prems obtain b bs' where
      bs': "allocate_children priv chs (Suc k) (i + 1) = Inr bs'"
      and bs: "bs = (k, b) # bs'"
      by (auto split: sum.splits)
    from Cons.IH [OF bs'] bs True show ?thesis by simp
  qed
qed

lemma g_array_index_Inr:
  "g_array_index a k = Inr v \<Longrightarrow> \<exists>xs. a = Some xs \<and> 0 \<le> k \<and> k < int (length xs) \<and> v = xs ! nat k"
  by (auto simp: g_array_index_def split: option.splits if_splits)

lemma child_allocation_Inr:
  assumes "child_allocation priv i = Inr b" "0 \<le> i" "0 < columns priv"
  shows "\<exists>xs ys. columnCoords priv = Some xs \<and> rowCoords priv = Some ys
     \<and> b = \<lparr>x1 = xs ! nat (i mod columns priv), y1 = ys ! nat (i div columns priv),
            x2 = xs ! nat (i mod columns priv + 1) - columnSpacing priv,
            y2 = ys ! nat (i div columns priv + 1) - rowSpacing priv\<rparr>"
proof -
  have sm: "i smod columns priv = i mod columns priv" using assms(2,3) by (rule smod_nonneg)
  have sd: "i sdiv columns priv = i div columns priv" using assms(2,3) by (rule sdiv_nonneg)
  from assms(1,3) obtain cx1 cx2 cy1 cy2 where
    g: "g_array_index (columnCoords priv) (i mod columns priv) = Inr cx1"
       "g_array_index (columnCoords priv) (i mod columns priv + 1) = Inr cx2"
       "g_array_index (rowCoords priv) (i div columns priv) = Inr cy1"
       "g_array_index (rowCoords priv) (i div columns priv + 1) = Inr cy2"
    and b: "b = \<lparr>x1 = cx1, y1 = cy1, x2 = cx2 - columnSpacing priv, y2 = cy2 - rowSpacing priv\<rparr>"
    by (auto simp: child_allocation_def Let_def sm sd split: sum.splits)
  from g [THEN g_array_index_Inr] b show ?thesis by auto
qed

lemma update_columns_positive:
  assumes "update_layout_data self cont w h = Inr priv"
    and "0 < number_visible (actor_children cont)"
  shows "0 < columns priv"
proof -
  let ?n = "number_visible (actor_children cont)"
  from update_shape [OF assms(1)]
  consider "columns priv = ?n" | "1 \<le> columns priv"
    | "1 \<le> rows priv" "columns priv = \<lceil>of_int ?n / (of_int (rows priv) :: real)\<rceil>"
    by blast
  then show ?thesis
  proof cases
    case 3
    with ceil_div_pos [OF assms(2) 3(1)] show ?thesis by simp
  qed (use assms(2) in simp_all)
qed

text \<open>
  Every call of allocate that completes hands out the rectangles of the cells in
  row-major order: one call of \<^verbatim>\<open>clutter_actor_allocate\<close> for each visible child, in the
  order of the container, none for a child that is not visible, and the visible child
  with running index \<open>i\<close> gets the box between the column coordinates \<open>i mod columns\<close>
  and \<open>i mod columns + 1\<close> and the row coordinates \<open>i div columns\<close> and
  \<open>i div columns + 1\<close>, less the spacings on the right and at the bottom.
\<close>

lemma allocate_rectangles:
  assumes "allocate self cont box = Inr (priv, bs)"
  shows "update_layout_data self cont (box_get_width box) (box_get_height box) = Inr priv
     \<and> map fst bs = [k \<leftarrow> [0..<length (actor_children cont)]. is_visible (actor_children cont ! k)]
     \<and> (\<exists>xs ys. columnCoords priv = Some xs \<and> rowCoords priv = Some ys
          \<and> (\<forall>i < length bs. snd (bs ! i) =
                \<lparr>x1 = xs ! nat (int i mod columns priv), y1 = ys ! nat (int i div columns priv),
                 x2 = xs ! nat (int i mod columns priv + 1) - columnSpacing priv,
                 y2 = ys ! nat (int i div columns priv + 1) - rowSpacing priv\<rparr>))"
proof -
  let ?chs = "actor_children cont"
  from assms have upd: "update_layout_data self cont (box_get_width box) (box_get_height box)
      = Inr priv"
    and ac: "allocate_children priv ?chs 0 0 = Inr bs"
    by (auto simp: allocate_def split: sum.splits)
  from allocate_children_Inr [OF ac] have
    pos: "map fst bs = [k \<leftarrow> [0..<length ?chs]. is_visible (?chs ! k)]"
    and each: "\<forall>j < length bs. child_allocation priv (int j) = Inr (snd (bs ! j))"
    by simp_all
  from update_shape [OF upd] obtain xs ys where
    xs: "columnCoords priv = Some xs" and ys: "rowCoords priv = Some ys"
    by blast
  have "\<forall>i < length bs. snd (bs ! i) =
                \<lparr>x1 = xs ! nat (int i mod columns priv), y1 = ys ! nat (int i div columns priv),
                 x2 = xs ! nat (int i mod columns priv + 1) - columnSpacing priv,
                 y2 = ys ! nat (int i div columns priv + 1) - rowSpacing priv\<rparr>"
  proof (intro allI impI)
    fix i assume i: "i < length bs"
    with allocate_children_length [OF ac] have "0 < number_visible ?chs"
      by (auto simp: number_visible_eq)
    from update_columns_positive [OF upd this] have c: "0 < columns priv" .
    from each i have "child_allocation priv (int i) = Inr (snd (bs ! i))" by simp
    from child_allocation_Inr [OF this _ c] xs ys
    show "snd (bs ! i) =
                \<lparr>x1 = xs ! nat (int i mod columns priv), y1 = ys ! nat (int i div columns priv),
                 x2 = xs ! nat (int i mod columns priv + 1) - columnSpacing priv,
                 y2 = ys ! nat (int i div columns priv + 1) - rowSpacing priv\<rparr>"
      by auto
  qed
  with upd pos xs ys show ?thesis by blast
qed

lemma allocate_children_total:
  assumes "\<forall>j < length (filter is_visible chs). \<exists>b. child_allocation priv (i + int j) = Inr b"
  shows "\<exists>bs. allocate_children priv chs k i = Inr bs"
  using assms
proof (induction chs arbitrary: k i)
  case Nil
  show ?case by simp
next
  case (Cons ch chs)
  show ?case
  proof (cases "is_visible ch")
    case False
    with Cons.prems have
      "\<forall>j < length (filter is_visible chs). \<exists>b. child_allocation priv (i + int j) = Inr b"
      by simp
    from Cons.IH [OF this, of "Suc k"] False show ?thesis by simp
  next
    case True
    with Cons.prems [rule_format, of 0] obtain b where b: "child_allocation priv i = Inr b"
      by auto
    have "\<forall>j < length (filter is_visible chs). \<exists>b. child_allocation priv (i + 1 + int j) = Inr b"
    proof (intro allI impI)
      fix j assume "j < length (filter is_visible chs)"
      with True have "Suc j < length (filter is_visible (ch # chs))" by simp
      from Cons.prems [rule_format, OF this]
      show "\<exists>b. child_allocation priv (i + 1 + int j) = Inr b" by (simp add: algebra_simps)
    qed
    from Cons.IH [OF this, of "Suc k"] obtain bs where
      "allocate_children priv chs (Suc k) (i + 1) = Inr bs" by blast
    with True b show ?thesis by simp
  qed
qed

lemma child_allocation_total:
  assumes c: "0 < columns priv" and i: "0 \<le> i" "i < n"
    and xs: "columnCoords priv = Some xs" "int (length xs) = n + 1" "columns priv \<le> n"
    and ys: "rowCoords priv = Some ys" "int (length ys) = (n + columns priv - 1) div columns priv + 1"
  shows "\<exists>b. child_allocation priv i = Inr b"
proof -
  let ?c = "columns priv"
  have sm: "i smod ?c = i mod ?c" using i(1) c by (rule smod_nonneg)
  have sd: "i sdiv ?c = i div ?c" using i(1) c by (rule sdiv_nonneg)
  have m: "0 \<le> i mod ?c" "i mod ?c < ?c" using c by simp_all
  have d0: "0 \<le> i div ?c" using i(1) c by (simp add: pos_imp_zdiv_nonneg_iff)
  have "i div ?c \<le> (n - 1) div ?c" using i(2) c by (intro zdiv_mono1) simp_all
  also have "(n - 1) div ?c + 1 = (n + ?c - 1) div ?c"
    using c div_add_self2 [of ?c "n - 1"] by (simp add: algebra_simps)
  finally have d1: "i div ?c + 1 \<le> (n + ?c - 1) div ?c" by simp
  have g1: "\<exists>v. g_array_index (columnCoords priv) (i mod ?c) = Inr v"
    using m xs by (simp add: g_array_index_def)
  have g2: "\<exists>v. g_array_index (columnCoords priv) (i mod ?c + 1) = Inr v"
    using m xs by (simp add: g_array_index_def)
  have g3: "\<exists>v. g_array_index (rowCoords priv) (i div ?c) = Inr v"
    using d0 d1 ys by (simp add: g_array_index_def)
  have g4: "\<exists>v. g_array_index (rowCoords priv) (i div ?c + 1) = Inr v"
    using d0 d1 ys by (simp add: g_array_index_def)
  from g1 g2 g3 g4 c show ?thesis
    by (auto simp: child_allocation_def Let_def sm sd)
qed

text \<open>
  Allocate completes whenever a child is visible and the size that drives the derivation
  is positive (or both sizes of the box are negative).
\<close>

lemma allocate_completes:
  assumes n: "0 < number_visible (actor_children cont)"
    and "(box_get_width box < 0 \<and> box_get_height box < 0)
       \<or> (effective_request_mode (actor_request_mode cont) (box_get_width box)
             (box_get_height box) = HEIGHT_FOR_WIDTH \<and> 0 < box_get_width box)
       \<or> (effective_request_mode (actor_request_mode cont) (box_get_width box)
             (box_get_height box) = WIDTH_FOR_HEIGHT \<and> 0 < box_get_height box)"
  shows "\<exists>priv bs. allocate self cont box = Inr (priv, bs)"
proof -
  let ?chs = "actor_children cont"
  let ?n = "number_visible ?chs"
  from update_completes_positive [OF assms] obtain priv where
    upd: "update_layout_data self cont (box_get_width box) (box_get_height box) = Inr priv"
    by blast
  have c: "0 < columns priv" using upd n by (rule update_columns_positive)
  from update_shape [OF upd] obtain cw ys where
    xs: "columnCoords priv = Some (column_coords ?chs 0 (cw + columnSpacing self))"
    and rc: "row_coords ?chs (columns priv) (rowSpacing self) 0 (- rowSpacing self) 0 = Inr ys"
    and ys: "rowCoords priv = Some ys"
    by blast
  have lx: "int (length (column_coords ?chs 0 (cw + columnSpacing self))) = ?n + 1"
    by (simp add: column_coords_length number_visible_eq)
  have cn: "columns priv \<le> ?n" using update_columns_range [OF upd] by simp
  have ly: "int (length ys) = (?n + columns priv - 1) div columns priv + 1"
    using row_coords_length [OF c _ rc] c by (simp add: number_visible_eq)
  have "\<forall>j < length (filter is_visible ?chs). \<exists>b. child_allocation priv (0 + int j) = Inr b"
  proof (intro allI impI)
    fix j assume "j < length (filter is_visible ?chs)"
    then have "int j < ?n" by (simp add: number_visible_eq)
    from child_allocation_total [OF c _ this xs lx cn ys ly]
    show "\<exists>b. child_allocation priv (0 + int j) = Inr b" by simp
  qed
  from allocate_children_total [OF this, of 0] obtain bs where
    "allocate_children priv ?chs 0 0 = Inr bs" by blast
  with upd show ?thesis by (simp add: allocate_def)
qed

section \<open>Inputs on which the code leaves the claimed behaviour\<close>

text \<open>With both sizes unset the update always completes, with one row and \<open>n\<close> columns.\<close>

lemma unconstrained_single_row:
  assumes "w < 0" "h < 0"
  shows "\<exists>priv. update_layout_data self cont w h = Inr priv
            \<and> rows priv = 1 \<and> columns priv = number_visible (actor_children cont)"
proof -
  from update_completes_unconstrained [OF assms] obtain priv where
    upd: "update_layout_data self cont w h = Inr priv" by blast
  from update_shape [OF upd] assms
  have "rows priv = 1 \<and> columns priv = number_visible (actor_children cont)" by auto
  with upd show ?thesis by blast
qed

text \<open>
  Claim C2 at an allocation box of width 0 around one visible child of 100 x 50
  (height-for-width): the candidate \<open>MIN(ceil(0/100), 1) + 1 = 1\<close> is decremented to
  \<open>columns = 0\<close> by the first pass of the loop, \<^verbatim>\<open>ceil(1.0 / 0.0)\<close> is an infinity whose
  conversion to \<^verbatim>\<open>gint\<close> is undefined, step five would divide by \<open>columns = 0\<close>, and no
  child is allocated.
\<close>

theorem allocate_zero_width:
  "box_get_width \<lparr>x1 = 0, y1 = 0, x2 = 0, y2 = 100\<rparr> = 0
   \<and> to_gint (ieee_plus_one (MIN_ieee (ieee_ceil (fdiv 0 100)) (Finite (of_int 1)))) = Some 1
   \<and> shrink 1 100 0 0 = 0
   \<and> to_gint (ieee_ceil (fdiv (of_int 1) (of_int 0))) = None
   \<and> row_coords (actor_children one_child) 0 0 0 (- 0) 0 = Inl DivisionByZero
   \<and> update_layout_data layout_init one_child 0 100 = Inl UndefinedConversion
   \<and> allocate layout_init one_child \<lparr>x1 = 0, y1 = 0, x2 = 0, y2 = 100\<rparr>
       = Inl UndefinedConversion"
  by (simp add: allocate_def box_get_width_def box_get_height_def eval_defs)

text \<open>
  Claim C4 at a container without visible children, both sizes unset: the update stores
  \<open>rows = 1\<close> and \<open>columns = 0\<close>, with one row coordinate; the preferred height then
  reads \<^verbatim>\<open>rowCoords\<close> at index \<open>rows = 1\<close>, beyond its single entry.
\<close>

theorem unconstrained_no_children:
  "update_layout_data layout_init no_children (- 1) (- 1)
     = Inr \<lparr>rowSpacing = 0, columnSpacing = 0, rows = 1, columns = 0, numberChildren = 0,
            columnCoords = Some [0], rowCoords = Some [0], emitted = [Notify PROP_ROWS]\<rparr>
   \<and> get_preferred_height layout_init no_children (- 1) = Inl IndexOutOfRange"
  by (simp add: get_preferred_height_def g_array_index_def eval_defs)

text \<open>
  Claim C7 at a container without visible children: with both sizes unset and a row
  spacing of 5 the update stores \<open>rows = 1\<close> and the row coordinates \<open>[-5]\<close>; with
  one size set, the other count is \<^verbatim>\<open>ceil(0.0 / 0.0)\<close>, a NaN whose conversion to
  \<^verbatim>\<open>gint\<close> is undefined.
\<close>

theorem no_children_update:
  "update_layout_data (layout_init\<lparr>rowSpacing := 5\<rparr>) no_children (- 1) (- 1)
     = Inr \<lparr>rowSpacing = 5, columnSpacing = 0, rows = 1, columns = 0, numberChildren = 0,
            columnCoords = Some [0], rowCoords = Some [- 5], emitted = [Notify PROP_ROWS]\<rparr>
   \<and> update_layout_data layout_init no_children 100 (- 1) = Inl UndefinedConversion
   \<and> update_layout_data layout_init no_children (- 1) 100 = Inl UndefinedConversion"
  by (simp add: eval_defs)

end
